(* ===== verification/Prelude.thy ===== *)
theory Prelude
  imports Complex_Main
begin

text \<open>
  Shared vocabulary of the timeline development: JavaScript numbers are modelled as
  \<^typ>\<open>real\<close> (IEEE rounding is not modelled), points and offsets as pairs of reals,
  times as milliseconds in \<^typ>\<open>nat\<close>.  \<open>hypot\<close> is the semantics of
  \<^verbatim>\<open>Math.hypot\<close>.  The lemmas on \<open>hypot\<close> and on list updates are used by the
  drag and page theories.
\<close>

type_synonym vec = "real \<times> real"

named_theorems model_defs "definitions unfolded by the component proofs"

definition hypot :: "real \<Rightarrow> real \<Rightarrow> real" where
  "hypot x y = sqrt (x\<^sup>2 + y\<^sup>2)"

definition vadd :: "vec \<Rightarrow> vec \<Rightarrow> vec" where
  "vadd a b = (fst a + fst b, snd a + snd b)"

definition vscale :: "real \<Rightarrow> vec \<Rightarrow> vec" where
  "vscale c v = (c * fst v, c * snd v)"

abbreviation vnorm :: "vec \<Rightarrow> real" where
  "vnorm v \<equiv> hypot (fst v) (snd v)"

declare hypot_def [model_defs] vadd_def [model_defs] vscale_def [model_defs]

lemma hypot_nonneg [simp]: "0 \<le> hypot x y"
  by (simp add: hypot_def)

lemma hypot_scale: "hypot (c * x) (c * y) = \<bar>c\<bar> * hypot x y"
proof -
  have "(c * x)\<^sup>2 + (c * y)\<^sup>2 = c\<^sup>2 * (x\<^sup>2 + y\<^sup>2)"
    by (simp add: power_mult_distrib algebra_simps)
  then show ?thesis
    by (simp add: hypot_def real_sqrt_mult)
qed

lemma hypot_zero_iff [simp]: "hypot x y = 0 \<longleftrightarrow> x = 0 \<and> y = 0"
  by (simp add: hypot_def)

lemma hypot_pos_iff: "0 < hypot x y \<longleftrightarrow> x \<noteq> 0 \<or> y \<noteq> 0"
  using hypot_nonneg [of x y] hypot_zero_iff [of x y] by linarith

lemma hypot_pythagorean:
  assumes "0 \<le> r" and "x\<^sup>2 + y\<^sup>2 = r\<^sup>2"
  shows "hypot x y = r"
  using assms by (simp add: hypot_def)

lemma vnorm_vscale: "vnorm (vscale c v) = \<bar>c\<bar> * vnorm v"
  by (simp add: vscale_def hypot_scale)

lemma find_SomeD: "find P xs = Some x \<Longrightarrow> x \<in> set xs \<and> P x"
  by (induction xs) (auto split: if_splits)

lemma find_append_fresh:
  "\<forall>y \<in> set xs. \<not> P y \<Longrightarrow> P x \<Longrightarrow> find P (xs @ [x]) = Some x"
  by (induction xs) auto

lemma distinct_map_eqD:
  "distinct (map f xs) \<Longrightarrow> x \<in> set xs \<Longrightarrow> y \<in> set xs \<Longrightarrow> f x = f y \<Longrightarrow> x = y"
  by (simp add: distinct_map inj_on_def)

lemma nth_list_update_other [simp]: "j \<noteq> i \<Longrightarrow> xs[i := x] ! j = xs ! j"
  by simp

lemma list_update_same_length [simp]: "length (xs[i := x]) = length xs"
  by simp

end
