(* ===== verification/Geometry.thy ===== *)
theory Geometry
  imports Prelude
begin

text \<open>
  The geometry engine: the body of the \<^verbatim>\<open>requestAnimationFrame\<close> callback of
  \<^verbatim>\<open>drawConnectors\<close> in \<^verbatim>\<open>src/credentials.js\<close> (lines 48--81).  A DOMRect is a
  record; \<open>connector\<close> is the per-item computation of the start point (marker
  centre), end point (content edge facing the container's vertical centre line) and the
  two control points of the cubic Bezier path, all in container-local coordinates;
  \<open>connector_pass\<close> is the \<^verbatim>\<open>forEach\<close> over the list items, skipping an item whose
  dot or content element is missing.  The \<open>d\<close> attribute's number-to-string formatting
  and the constant stroke attributes are not modelled: a path is the record of its four
  points.
\<close>

record rect =
  r_left :: real
  r_top :: real
  r_width :: real
  r_height :: real

record conn_path =
  p_start :: vec
  p_c1 :: vec
  p_c2 :: vec
  p_end :: vec

definition connector :: "rect \<Rightarrow> rect \<Rightarrow> rect \<Rightarrow> conn_path" where
  "connector svgRect dRect cRect =
     (let startX = r_left dRect + r_width dRect / 2 - r_left svgRect;
          startY = r_top dRect + r_height dRect / 2 - r_top svgRect;
          endX = (if r_left cRect < r_left svgRect + r_width svgRect / 2
                  then r_left cRect + r_width cRect - r_left svgRect
                  else r_left cRect - r_left svgRect);
          endY = r_top cRect + r_height cRect / 2 - r_top svgRect;
          dx = \<bar>endX - startX\<bar>;
          cp1x = startX + dx * 0.35;
          cp2x = endX - dx * 0.35
      in \<lparr>p_start = (startX, startY), p_c1 = (cp1x, startY),
          p_c2 = (cp2x, endY), p_end = (endX, endY)\<rparr>)"

text \<open>
  One list item as the pass sees it: the bounding box of its \<^verbatim>\<open>.timeline-dot\<close> and of
  its \<^verbatim>\<open>.timeline-content\<close>, each absent when \<^verbatim>\<open>querySelector\<close> returns null.
\<close>

type_synonym item_geom = "rect option \<times> rect option"

fun connector_pass :: "rect \<Rightarrow> item_geom list \<Rightarrow> conn_path list" where
  "connector_pass svgRect [] = []"
| "connector_pass svgRect ((Some dRect, Some cRect) # items) =
     connector svgRect dRect cRect # connector_pass svgRect items"
| "connector_pass svgRect (_ # items) = connector_pass svgRect items"

text \<open>
  A CSS \<^verbatim>\<open>translate(x, y)\<close> moves the bounding box reported by
  \<^verbatim>\<open>getBoundingClientRect\<close>; scrolling moves every box by the same vector.
\<close>

definition shift_rect :: "rect \<Rightarrow> vec \<Rightarrow> rect" where
  "shift_rect r v = r\<lparr>r_left := r_left r + fst v, r_top := r_top r + snd v\<rparr>"

text \<open>
  The x coordinate of the cubic Bezier segment \<^verbatim>\<open>M p0 C p1 p2 p3\<close> as SVG
  renders it, at parameter \<open>t\<close>.
\<close>

definition bezier_x :: "conn_path \<Rightarrow> real \<Rightarrow> real" where
  "bezier_x p t = (1 - t) ^ 3 * fst (p_start p) + 3 * (1 - t)\<^sup>2 * t * fst (p_c1 p)
     + 3 * (1 - t) * t\<^sup>2 * fst (p_c2 p) + t ^ 3 * fst (p_end p)"

subsection \<open>Helper lemmas\<close>

lemma bernstein_lower:
  fixes t x0 x1 x2 x3 lo :: real
  assumes "0 \<le> t" "t \<le> 1" "lo \<le> x0" "lo \<le> x1" "lo \<le> x2" "lo \<le> x3"
  shows "lo \<le> (1 - t) ^ 3 * x0 + 3 * (1 - t)\<^sup>2 * t * x1 + 3 * (1 - t) * t\<^sup>2 * x2 + t ^ 3 * x3"
proof -
  have sum1: "(1 - t) ^ 3 + 3 * (1 - t)\<^sup>2 * t + 3 * (1 - t) * t\<^sup>2 + t ^ 3 = 1"
    by (simp add: power2_eq_square power3_eq_cube algebra_simps)
  have "(1 - t) ^ 3 * x0 + 3 * (1 - t)\<^sup>2 * t * x1 + 3 * (1 - t) * t\<^sup>2 * x2 + t ^ 3 * x3 - lo
      = (1 - t) ^ 3 * (x0 - lo) + 3 * (1 - t)\<^sup>2 * t * (x1 - lo)
        + 3 * (1 - t) * t\<^sup>2 * (x2 - lo) + t ^ 3 * (x3 - lo)"
    using sum1 by (simp add: algebra_simps) (metis (no_types, lifting) distrib_left mult.commute mult_1)
  also have "\<dots> \<ge> 0"
    using assms by (intro add_nonneg_nonneg mult_nonneg_nonneg) auto
  finally show ?thesis by simp
qed

lemma bernstein_upper:
  fixes t x0 x1 x2 x3 hi :: real
  assumes "0 \<le> t" "t \<le> 1" "x0 \<le> hi" "x1 \<le> hi" "x2 \<le> hi" "x3 \<le> hi"
  shows "(1 - t) ^ 3 * x0 + 3 * (1 - t)\<^sup>2 * t * x1 + 3 * (1 - t) * t\<^sup>2 * x2 + t ^ 3 * x3 \<le> hi"
  using bernstein_lower [of t "-hi" "-x0" "-x1" "-x2" "-x3"] assms by simp

lemma connector_x_points:
  "fst (p_c1 (connector s d c)) = fst (p_start (connector s d c))
     + 0.35 * \<bar>fst (p_end (connector s d c)) - fst (p_start (connector s d c))\<bar>"
  "fst (p_c2 (connector s d c)) = fst (p_end (connector s d c))
     - 0.35 * \<bar>fst (p_end (connector s d c)) - fst (p_start (connector s d c))\<bar>"
  by (simp_all add: connector_def Let_def)

lemma connector_pass_all_some:
  "connector_pass c (map (\<lambda>x. (Some (f x), Some (g x))) xs) = map (\<lambda>x. connector c (f x) (g x)) xs"
  by (induction xs) simp_all

lemma shift_rect_zero [simp]: "shift_rect r (0, 0) = r"
  by (simp add: shift_rect_def)

subsection \<open>Properties of the geometry engine\<close>

text \<open>
  C1.  The connector of an item starts at the centre of its marker and ends at the
  vertical centre of the content box, on the content's right edge when the content's left
  edge lies strictly left of the container's vertical centre line, and on its left edge
  otherwise (so a left edge exactly on the centre line attaches to the left edge); all
  coordinates are relative to the container's top-left corner.
\<close>

theorem connector_end_side:
  "p_start (connector s d c) =
     (r_left d + r_width d / 2 - r_left s, r_top d + r_height d / 2 - r_top s)
   \<and> p_end (connector s d c) =
     ((if r_left c < r_left s + r_width s / 2 then r_left c + r_width c else r_left c) - r_left s,
      r_top c + r_height c / 2 - r_top s)"
  by (simp add: connector_def Let_def)

text \<open>
  C2.  A geometry pass produces exactly one connector per list item whose marker and
  content are both present, in display order, and skips the other items without
  affecting the rest of the pass.
\<close>

theorem connector_pass_eq:
  "connector_pass s items = [connector s d c. (Some d, Some c) \<leftarrow> items]"
  by (induction s items rule: connector_pass.induct) (auto split: option.splits)

text \<open>
  The connector depends only on the relative position of the container, the marker and
  the content; the page-level consequence for scrolling is claim C18.
\<close>

lemma connector_translate:
  "connector (shift_rect s v) (shift_rect d v) (shift_rect c v) = connector s d c"
  by (simp add: connector_def shift_rect_def Let_def)

lemma connector_pass_translate:
  "connector_pass (shift_rect c v) (map (\<lambda>(d, e). (map_option (\<lambda>r. shift_rect r v) d, map_option (\<lambda>r. shift_rect r v) e)) xs)
   = connector_pass c xs"
  by (induction c xs rule: connector_pass.induct) (simp_all add: connector_translate)

text \<open>
  C19.  When the content is attached to the right of the marker, the rendered curve
  stays horizontally between marker and content: its x coordinate never leaves the
  interval from the start point to the end point.
\<close>

theorem connector_monotone_right:
  assumes "fst (p_start (connector s d c)) \<le> fst (p_end (connector s d c))"
    and "0 \<le> t" and "t \<le> 1"
  shows "fst (p_start (connector s d c)) \<le> bezier_x (connector s d c) t
       \<and> bezier_x (connector s d c) t \<le> fst (p_end (connector s d c))"
proof -
  let ?p = "connector s d c"
  have c1: "fst (p_c1 ?p) = fst (p_start ?p) + 0.35 * (fst (p_end ?p) - fst (p_start ?p))"
    and c2: "fst (p_c2 ?p) = fst (p_end ?p) - 0.35 * (fst (p_end ?p) - fst (p_start ?p))"
    using assms(1) connector_x_points [of s d c] by simp_all
  have lo: "fst (p_start ?p) \<le> fst (p_c1 ?p)" "fst (p_start ?p) \<le> fst (p_c2 ?p)"
    and hi: "fst (p_c1 ?p) \<le> fst (p_end ?p)" "fst (p_c2 ?p) \<le> fst (p_end ?p)"
    using assms(1) unfolding c1 c2 by (simp_all add: field_simps)
  show ?thesis
    unfolding bezier_x_def
    using assms(2,3) lo hi by (intro conjI bernstein_lower bernstein_upper) auto
qed

theorem connector_monotone_right_witness:
  "fst (p_start (connector \<lparr>r_left = 0, r_top = 0, r_width = 800, r_height = 600\<rparr> \<lparr>r_left = 396, r_top = 96, r_width = 8, r_height = 8\<rparr> \<lparr>r_left = 440, r_top = 80, r_width = 300, r_height = 40\<rparr>)) \<le> fst (p_end (connector \<lparr>r_left = 0, r_top = 0, r_width = 800, r_height = 600\<rparr> \<lparr>r_left = 396, r_top = 96, r_width = 8, r_height = 8\<rparr> \<lparr>r_left = 440, r_top = 80, r_width = 300, r_height = 40\<rparr>))
   \<and> (0::real) \<le> 1/2 \<and> (1/2::real) \<le> 1
   \<and> 400 \<le> bezier_x (connector \<lparr>r_left = 0, r_top = 0, r_width = 800, r_height = 600\<rparr> \<lparr>r_left = 396, r_top = 96, r_width = 8, r_height = 8\<rparr> \<lparr>r_left = 440, r_top = 80, r_width = 300, r_height = 40\<rparr>) (1/2)
   \<and> bezier_x (connector \<lparr>r_left = 0, r_top = 0, r_width = 800, r_height = 600\<rparr> \<lparr>r_left = 396, r_top = 96, r_width = 8, r_height = 8\<rparr> \<lparr>r_left = 440, r_top = 80, r_width = 300, r_height = 40\<rparr>) (1/2) \<le> 440"
proof -
  have h: "fst (p_start (connector \<lparr>r_left = 0, r_top = 0, r_width = 800, r_height = 600\<rparr> \<lparr>r_left = 396, r_top = 96, r_width = 8, r_height = 8\<rparr> \<lparr>r_left = 440, r_top = 80, r_width = 300, r_height = 40\<rparr>)) \<le> fst (p_end (connector \<lparr>r_left = 0, r_top = 0, r_width = 800, r_height = 600\<rparr> \<lparr>r_left = 396, r_top = 96, r_width = 8, r_height = 8\<rparr> \<lparr>r_left = 440, r_top = 80, r_width = 300, r_height = 40\<rparr>))"
    by (simp add: connector_def Let_def)
  show ?thesis
    using connector_monotone_right [OF h, of "1/2"] h by (simp add: connector_def Let_def)
qed

text \<open>
  C20.  Because the code takes the absolute value of the horizontal distance, a
  connector whose end lies left of its start (content on the left of the rope) does not
  head towards the content first: at a tenth of the curve its x coordinate lies to the
  right of the marker, by 119/2500 of the horizontal distance.
\<close>

theorem connector_overshoot_left:
  assumes "fst (p_end (connector s d c)) < fst (p_start (connector s d c))"
  shows "bezier_x (connector s d c) (1/10) = fst (p_start (connector s d c))
     + 119 / 2500 * (fst (p_start (connector s d c)) - fst (p_end (connector s d c)))"
proof -
  let ?p = "connector s d c"
  have c1: "fst (p_c1 ?p) = fst (p_start ?p) + 0.35 * (fst (p_start ?p) - fst (p_end ?p))"
    and c2: "fst (p_c2 ?p) = fst (p_end ?p) - 0.35 * (fst (p_start ?p) - fst (p_end ?p))"
    using assms connector_x_points [of s d c] by simp_all
  show ?thesis
    unfolding bezier_x_def c1 c2 by (simp add: power2_eq_square power3_eq_cube field_simps)
qed

theorem connector_overshoot_left_witness:
  "fst (p_end (connector \<lparr>r_left = 0, r_top = 0, r_width = 800, r_height = 600\<rparr> \<lparr>r_left = 396, r_top = 96, r_width = 8, r_height = 8\<rparr> \<lparr>r_left = 60, r_top = 80, r_width = 300, r_height = 40\<rparr>)) < fst (p_start (connector \<lparr>r_left = 0, r_top = 0, r_width = 800, r_height = 600\<rparr> \<lparr>r_left = 396, r_top = 96, r_width = 8, r_height = 8\<rparr> \<lparr>r_left = 60, r_top = 80, r_width = 300, r_height = 40\<rparr>))
   \<and> bezier_x (connector \<lparr>r_left = 0, r_top = 0, r_width = 800, r_height = 600\<rparr> \<lparr>r_left = 396, r_top = 96, r_width = 8, r_height = 8\<rparr> \<lparr>r_left = 60, r_top = 80, r_width = 300, r_height = 40\<rparr>) (1/10) = 400 + 119 / 2500 * 40"
proof -
  have h: "fst (p_end (connector \<lparr>r_left = 0, r_top = 0, r_width = 800, r_height = 600\<rparr> \<lparr>r_left = 396, r_top = 96, r_width = 8, r_height = 8\<rparr> \<lparr>r_left = 60, r_top = 80, r_width = 300, r_height = 40\<rparr>)) < fst (p_start (connector \<lparr>r_left = 0, r_top = 0, r_width = 800, r_height = 600\<rparr> \<lparr>r_left = 396, r_top = 96, r_width = 8, r_height = 8\<rparr> \<lparr>r_left = 60, r_top = 80, r_width = 300, r_height = 40\<rparr>))"
    by (simp add: connector_def Let_def)
  show ?thesis
    using connector_overshoot_left [OF h] h by (simp add: connector_def Let_def)
qed

end
