(* ===== verification/Scheduler.thy ===== *)
theory Scheduler
  imports Prelude
begin

text \<open>
  The redraw scheduler: \<^verbatim>\<open>drawConnectors\<close> of \<^verbatim>\<open>src/credentials.js\<close>
  (lines 42--47) with its closure variable \<^verbatim>\<open>rafState\<close>, and the browser's queue of
  \<^verbatim>\<open>requestAnimationFrame\<close> callbacks.  The only callback the program registers is
  the connector pass, so a queue entry is the constant \<open>ConnectorPass\<close>.  At a frame the
  browser takes the whole queue (\<open>take_frame\<close>) and runs the callbacks in order; the
  first statement of the callback clears the flag (\<open>begin_pass\<close>, line 47), the rest of
  the callback is the geometry pass of theory \<open>Geometry\<close>, composed in theory
  \<open>Page\<close>.
\<close>

datatype raf_cb = ConnectorPass

record sched =
  scheduled :: bool
  raf_queue :: "raf_cb list"

definition sched_init :: sched where
  "sched_init = \<lparr>scheduled = False, raf_queue = []\<rparr>"

definition draw_connectors :: "sched \<Rightarrow> sched" where
  "draw_connectors s =
     (if scheduled s then s
      else s\<lparr>scheduled := True, raf_queue := raf_queue s @ [ConnectorPass]\<rparr>)"

definition take_frame :: "sched \<Rightarrow> raf_cb list \<times> sched" where
  "take_frame s = (raf_queue s, s\<lparr>raf_queue := []\<rparr>)"

definition begin_pass :: "sched \<Rightarrow> sched" where
  "begin_pass s = s\<lparr>scheduled := False\<rparr>"

text \<open>
  The scheduler's invariant: a connector pass is queued exactly when the flag is set, and
  then exactly one.
\<close>

definition sched_inv :: "sched \<Rightarrow> bool" where
  "sched_inv s \<longleftrightarrow> raf_queue s = (if scheduled s then [ConnectorPass] else [])"

lemma sched_inv_init [simp]: "sched_inv sched_init"
  by (simp add: sched_inv_def sched_init_def)

lemma draw_connectors_idem [simp]: "draw_connectors (draw_connectors s) = draw_connectors s"
  by (simp add: draw_connectors_def)

lemma draw_connectors_scheduled [simp]: "scheduled (draw_connectors s)"
  by (simp add: draw_connectors_def)

lemma sched_inv_draw_connectors:
  "sched_inv s \<Longrightarrow> raf_queue (draw_connectors s) = [ConnectorPass]"
  by (simp add: sched_inv_def draw_connectors_def)

lemma sched_inv_draw [simp]: "sched_inv s \<Longrightarrow> sched_inv (draw_connectors s)"
  by (simp add: sched_inv_def sched_inv_draw_connectors)

lemma take_frame_queue [simp]: "raf_queue (snd (take_frame s)) = []"
  by (simp add: take_frame_def)

lemma take_frame_flag [simp]: "scheduled (snd (take_frame s)) = scheduled s"
  by (simp add: take_frame_def)

lemma take_frame_inv:
  "sched_inv s \<Longrightarrow> fst (take_frame s) = (if scheduled s then [ConnectorPass] else [])"
  by (simp add: take_frame_def sched_inv_def)

lemma begin_pass_inv [simp]: "raf_queue s = [] \<Longrightarrow> sched_inv (begin_pass s)"
  by (simp add: begin_pass_def sched_inv_def)

lemma begin_pass_fields [simp]:
  "scheduled (begin_pass s) = False" "raf_queue (begin_pass s) = raf_queue s"
  by (simp_all add: begin_pass_def)

text \<open>
  C3.  Coalescing: any number \<open>k \<ge> 1\<close> of redraw requests issued before a frame
  leave the scheduler exactly as one request does, and from a consistent scheduler the
  next frame receives exactly one connector pass.
\<close>

theorem draw_connectors_coalesce:
  assumes "sched_inv s" and "1 \<le> k"
  shows "(draw_connectors ^^ k) s = draw_connectors s
       \<and> fst (take_frame ((draw_connectors ^^ k) s)) = [ConnectorPass]"
proof -
  have iter: "(draw_connectors ^^ Suc n) s = draw_connectors s" for n
    by (induction n) simp_all
  from assms(2) obtain n where "k = Suc n"
    by (cases k) auto
  then have "(draw_connectors ^^ k) s = draw_connectors s"
    using iter by simp
  moreover have "fst (take_frame (draw_connectors s)) = [ConnectorPass]"
    using sched_inv_draw_connectors [OF assms(1)] by (simp add: take_frame_def)
  ultimately show ?thesis by simp
qed

theorem draw_connectors_coalesce_witness:
  "sched_inv sched_init \<and> 1 \<le> (3::nat)
   \<and> (draw_connectors ^^ 3) sched_init = draw_connectors sched_init
   \<and> fst (take_frame ((draw_connectors ^^ 3) sched_init)) = [ConnectorPass]"
  using draw_connectors_coalesce [of sched_init 3]
  by (simp add: draw_connectors_def sched_init_def take_frame_def sched_inv_def numeral_eq_Suc)

end
