(* ===== verification/Drag.thy ===== *)
theory Drag
  imports Prelude
begin

text \<open>
  The drag interaction controller: \<^verbatim>\<open>enableCardDrag\<close> of
  \<^verbatim>\<open>src/credentials.js\<close> (lines 136--168).  The state of one card is the closure
  variable \<^verbatim>\<open>pos\<close>, the element's inline \<^verbatim>\<open>style.transform\<close> and
  \<^verbatim>\<open>style.willChange\<close>, the anime.js snap-back animation in flight on the element
  (its start time and the offset it starts from), and whether interact.js is in the
  middle of a gesture on it (interact.js only delivers \<open>move\<close> and \<open>end\<close> between a
  \<open>start\<close> and an \<open>end\<close>).

  The animation library is an external collaborator.  Its easing curve is a parameter
  \<open>ease\<close> (the eased progress after a given fraction of the duration); while it runs
  it owns the element's transform, and when it has run for its duration the transform is
  its target \<open>(0, 0)\<close>.  \<open>visual_offset\<close> is the translation the browser applies to
  the content box at a given time, which is what \<^verbatim>\<open>getBoundingClientRect\<close> in the
  connector pass sees.
\<close>

definition drag_R :: real where
  "drag_R = 120"

definition snap_duration :: nat where
  "snap_duration = 900"

definition snap_redraw_delay :: nat where
  "snap_redraw_delay = 920"

record drag_st =
  pos :: vec
  tf :: vec
  will_change :: bool
  anim :: "(nat \<times> vec) option"
  dragging :: bool

definition drag_init :: drag_st where
  "drag_init = \<lparr>pos = (0, 0), tf = (0, 0), will_change = False, anim = None, dragging = False\<rparr>"

text \<open>Lines 149--153: clamp the accumulated offset to the disc of radius \<open>R\<close>.\<close>

definition clamp_offset :: "vec \<Rightarrow> vec" where
  "clamp_offset p =
     (let d = hypot (fst p) (snd p)
      in if d > drag_R then (fst p / d * drag_R, snd p / d * drag_R) else p)"

definition anim_active :: "nat \<Rightarrow> drag_st \<Rightarrow> bool" where
  "anim_active t d = (case anim d of None \<Rightarrow> False | Some (t0, _) \<Rightarrow> t < t0 + snap_duration)"

definition visual_offset :: "(real \<Rightarrow> real) \<Rightarrow> nat \<Rightarrow> drag_st \<Rightarrow> vec" where
  "visual_offset ease t d =
     (case anim d of
        None \<Rightarrow> tf d
      | Some (t0, v0) \<Rightarrow>
          if t0 + snap_duration \<le> t then (0, 0)
          else vscale (1 - ease (real (t - t0) / real snap_duration)) v0)"

text \<open>The \<open>start\<close> listener (line 145).\<close>

definition drag_start :: "drag_st \<Rightarrow> drag_st" where
  "drag_start d = d\<lparr>will_change := True, dragging := True\<rparr>"

text \<open>
  The \<open>move\<close> listener (lines 148--154) without its final \<^verbatim>\<open>onUpdate()\<close>, which
  theory \<open>Page\<close> composes: accumulate the pointer delta, clamp, write the transform.  A
  snap-back animation that is still running keeps the transform; one that has finished
  is gone.
\<close>

definition drag_move :: "nat \<Rightarrow> drag_st \<Rightarrow> real \<Rightarrow> real \<Rightarrow> drag_st" where
  "drag_move t d dx dy =
     (let p = clamp_offset (fst (pos d) + dx, snd (pos d) + dy)
      in d\<lparr>pos := p, tf := p, anim := (if anim_active t d then anim d else None)\<rparr>)"

text \<open>
  The \<open>end\<close> listener (lines 159--161) without the \<^verbatim>\<open>setTimeout\<close>, which theory
  \<open>Page\<close> composes: cancel the animation in flight, start a new one from the current
  visual offset, reset the logical offset.
\<close>

definition drag_end :: "(real \<Rightarrow> real) \<Rightarrow> nat \<Rightarrow> drag_st \<Rightarrow> drag_st" where
  "drag_end ease t d =
     d\<lparr>anim := Some (t, visual_offset ease t d), pos := (0, 0), dragging := False\<rparr>"

subsection \<open>The specification's drag state machine\<close>

text \<open>
  The specification (section 4.4) describes each card by a phase
  \<open>Idle \<rightarrow> Dragging \<rightarrow> SnappingBack \<rightarrow> Idle\<close>.  The code keeps no phase;
  \<open>drag_phase\<close> reads it off the concrete state: a gesture in progress is
  \<open>Dragging\<close>, a running snap-back animation is \<open>SnappingBack\<close>.
\<close>

datatype drag_phase = Idle | Dragging | SnappingBack

definition drag_phase :: "nat \<Rightarrow> drag_st \<Rightarrow> drag_phase" where
  "drag_phase t d = (if dragging d then Dragging else if anim_active t d then SnappingBack else Idle)"

inductive spec_drag_step :: "drag_phase \<Rightarrow> drag_phase \<Rightarrow> bool" where
  stay: "spec_drag_step p p"
| grab: "spec_drag_step Idle Dragging"
| release: "spec_drag_step Dragging SnappingBack"
| settle: "spec_drag_step SnappingBack Idle"

inductive_simps spec_drag_step_simps: "spec_drag_step p q"

subsection \<open>Clamping\<close>

lemma clamp_offset_large:
  assumes "drag_R < vnorm p"
  shows "clamp_offset p = vscale (drag_R / vnorm p) p \<and> vnorm (clamp_offset p) = drag_R"
proof -
  have eq: "clamp_offset p = vscale (drag_R / vnorm p) p"
    using assms by (simp add: clamp_offset_def vscale_def Let_def)
  have "0 < vnorm p" using assms by (simp add: drag_R_def)
  then have "vnorm (vscale (drag_R / vnorm p) p) = drag_R"
    by (simp add: vnorm_vscale drag_R_def del: hypot_zero_iff)
  with eq show ?thesis by simp
qed

lemma clamp_offset_small: "vnorm p \<le> drag_R \<Longrightarrow> clamp_offset p = p"
  by (simp add: clamp_offset_def Let_def)

lemma clamp_offset_bounded: "vnorm (clamp_offset p) \<le> drag_R"
  using clamp_offset_large [of p] clamp_offset_small [of p] by fastforce

lemma drag_move_fields [simp]:
  "pos (drag_move t d dx dy) = clamp_offset (fst (pos d) + dx, snd (pos d) + dy)"
  "tf (drag_move t d dx dy) = pos (drag_move t d dx dy)"
  "dragging (drag_move t d dx dy) = dragging d"
  "will_change (drag_move t d dx dy) = will_change d"
  by (simp_all add: drag_move_def Let_def)

lemma drag_end_pos [simp]: "pos (drag_end ease t d) = (0, 0)"
  by (simp add: drag_end_def)

lemma drag_end_fields [simp]:
  "dragging (drag_end ease t d) = False"
  "anim (drag_end ease t d) = Some (t, visual_offset ease t d)"
  "will_change (drag_end ease t d) = will_change d"
  by (simp_all add: drag_end_def)

lemma drag_start_fields [simp]:
  "dragging (drag_start d)" "will_change (drag_start d)"
  "pos (drag_start d) = pos d" "anim (drag_start d) = anim d" "tf (drag_start d) = tf d"
  by (simp_all add: drag_start_def)

lemma anim_active_later:
  "t \<le> t' \<Longrightarrow> anim_active t' d \<Longrightarrow> anim_active t d"
  by (auto simp: anim_active_def split: option.splits)

lemma visual_offset_settled:
  "anim d = Some (t0, v) \<Longrightarrow> t0 + snap_duration \<le> t \<Longrightarrow> visual_offset ease t d = (0, 0)"
  by (simp add: visual_offset_def)

lemma drag_phase_later:
  "t \<le> t' \<Longrightarrow> spec_drag_step (drag_phase t d) (drag_phase t' d)"
  using anim_active_later [of t t' d] by (auto simp: drag_phase_def spec_drag_step_simps)

lemma drag_phase_start [simp]: "drag_phase t (drag_start d) = Dragging"
  by (simp add: drag_phase_def)

lemma drag_phase_dragging: "dragging d \<Longrightarrow> drag_phase t d = Dragging"
  by (simp add: drag_phase_def)

lemma drag_phase_move: "dragging d \<Longrightarrow> drag_phase t (drag_move t' d dx dy) = Dragging"
  by (simp add: drag_phase_dragging drag_move_def Let_def)

lemma drag_phase_end [simp]: "drag_phase t (drag_end ease t d) = SnappingBack"
  by (simp add: drag_phase_def anim_active_def snap_duration_def drag_end_def)

subsection \<open>Properties of the drag controller\<close>

text \<open>
  C7.  Whatever the pointer deltas, after every \<open>move\<close> the card's offset lies in the
  disc of radius \<open>R = 120\<close> and is the transform written to the element.
\<close>

theorem drag_move_bounded:
  "vnorm (pos (drag_move t d dx dy)) \<le> 120 \<and> tf (drag_move t d dx dy) = pos (drag_move t d dx dy)"
  using clamp_offset_bounded by (simp add: drag_R_def)

text \<open>
  C8.  When the accumulated offset leaves the disc, the \<open>move\<close> rescales it onto the
  circle: the new offset is the accumulated one multiplied by the positive factor
  \<open>120 / |p|\<close> (same direction) and has magnitude exactly 120.
\<close>

theorem drag_move_rescale:
  assumes "120 < hypot (fst (pos d) + dx) (snd (pos d) + dy)"
  shows "pos (drag_move t d dx dy) =
           vscale (120 / hypot (fst (pos d) + dx) (snd (pos d) + dy)) (fst (pos d) + dx, snd (pos d) + dy)
       \<and> 0 < 120 / hypot (fst (pos d) + dx) (snd (pos d) + dy)
       \<and> vnorm (pos (drag_move t d dx dy)) = 120"
proof -
  let ?p = "(fst (pos d) + dx, snd (pos d) + dy)"
  have h: "drag_R < vnorm ?p"
    using assms by (simp add: drag_R_def)
  from clamp_offset_large [OF h]
  have e1: "clamp_offset ?p = vscale (drag_R / vnorm ?p) ?p"
    and e2: "vnorm (clamp_offset ?p) = drag_R" by auto
  have p1: "pos (drag_move t d dx dy) = vscale (120 / vnorm ?p) ?p"
    using e1 by (simp add: drag_R_def)
  have p2: "vnorm (pos (drag_move t d dx dy)) = 120"
    using e2 by (simp add: drag_R_def)
  have p3: "0 < 120 / vnorm ?p"
    using assms by simp
  show ?thesis using p1 p2 p3 by simp
qed

lemma hypot_300_400: "hypot 300 400 = 500" and hypot_72_96: "hypot 72 96 = 120"
  by (rule hypot_pythagorean, simp_all)+

theorem drag_move_rescale_witness:
  "120 < hypot (fst (pos drag_init) + 300) (snd (pos drag_init) + 400)
   \<and> pos (drag_move 0 drag_init 300 400) = (72, 96)
   \<and> vnorm (pos (drag_move 0 drag_init 300 400)) = 120"
  using drag_move_rescale [of drag_init 300 400 0]
  by (simp add: drag_init_def hypot_300_400 hypot_72_96 vscale_def)

text \<open>
  C22.  Divergence from the specification's machine: a gesture may start while the
  snap-back animation of the previous one is still running (the \<open>start\<close> listener
  does not cancel it).  The phase then jumps from \<open>SnappingBack\<close> to \<open>Dragging\<close>,
  which the specification has no transition for, and the first \<open>move\<close> of the new
  gesture is invisible: the animation keeps the displayed offset, while the logical
  offset has moved.
\<close>

theorem drag_start_during_snap:
  assumes "anim_active t d" and "\<not> dragging d"
  shows "\<not> spec_drag_step (drag_phase t d) (drag_phase t (drag_start d))
       \<and> visual_offset ease t (drag_move t (drag_start d) dx dy) = visual_offset ease t d"
proof -
  have "anim (drag_move t (drag_start d) dx dy) = anim d"
    using assms(1) by (simp add: drag_move_def Let_def anim_active_def drag_start_def)
  moreover obtain t0 v0 where "anim d = Some (t0, v0)" "t < t0 + snap_duration"
    using assms(1) by (auto simp: anim_active_def split: option.splits)
  ultimately show ?thesis
    using assms by (simp add: drag_phase_def spec_drag_step_simps visual_offset_def)
qed

theorem drag_start_during_snap_witness:
  "anim_active 100 (drag_end (\<lambda>x. x) 0 (drag_init\<lparr>tf := (50, 0)\<rparr>))
   \<and> \<not> dragging (drag_end (\<lambda>x. x) 0 (drag_init\<lparr>tf := (50, 0)\<rparr>))
   \<and> \<not> spec_drag_step SnappingBack Dragging
   \<and> visual_offset (\<lambda>x. x) 100 (drag_move 100 (drag_start (drag_end (\<lambda>x. x) 0 (drag_init\<lparr>tf := (50, 0)\<rparr>))) 30 0)
     = visual_offset (\<lambda>x. x) 100 (drag_end (\<lambda>x. x) 0 (drag_init\<lparr>tf := (50, 0)\<rparr>))"
proof -
  let ?d = "drag_end (\<lambda>x. x) 0 (drag_init\<lparr>tf := (50, 0)\<rparr>)"
  have a: "anim_active 100 ?d" and b: "\<not> dragging ?d"
    by (simp_all add: anim_active_def snap_duration_def)
  have "drag_phase 100 ?d = SnappingBack" "drag_phase 100 (drag_start ?d) = Dragging"
    using a b by (simp_all add: drag_phase_def anim_active_def)
  then show ?thesis
    using drag_start_during_snap [OF a b, of "\<lambda>x. x" 30 0] a b by simp
qed

end
