(* ===== verification/Sparkle.thy ===== *)
theory Sparkle
  imports Prelude
begin

text \<open>
  The particle effect emitter: \<^verbatim>\<open>emitDotSparkle\<close> of \<^verbatim>\<open>src/credentials.js\<close>
  (lines 111--134).  The burst's sparks are computed from the values \<^verbatim>\<open>Math.random()\<close>
  returns during the call: \<open>rnd k\<close> is the \<open>k\<close>-th value drawn, four per spark in
  the order of the source (radius, x jitter, y jitter, duration).  A spark is the record
  of the target translation and the duration of its animation; the CSS animation itself
  (scale 0.2 to 0.8, opacity 1 to 0, the easing) is a constant of the source and not
  modelled.  Attaching the burst to the dot and the 1200 ms removal timer belong to the
  page state and are composed in theory \<open>Page\<close>.
\<close>

record spark =
  sp_tx :: real
  sp_ty :: real
  sp_duration :: real

definition spark_count :: nat where
  "spark_count = 8"

definition burst_lifetime :: nat where
  "burst_lifetime = 1200"

definition spark_angle :: "nat \<Rightarrow> real" where
  "spark_angle i = pi * 2 * (real i / real spark_count)"

definition spark_of :: "(nat \<Rightarrow> real) \<Rightarrow> nat \<Rightarrow> spark" where
  "spark_of rnd i =
     (let angle = spark_angle i;
          r = 18 + rnd (4 * i) * 8;
          tx = cos angle * r + (rnd (4 * i + 1) * 6 - 3);
          ty = sin angle * r + (rnd (4 * i + 2) * 6 - 3)
      in \<lparr>sp_tx = tx, sp_ty = ty, sp_duration = 700 + rnd (4 * i + 3) * 300\<rparr>)"

definition emit_sparks :: "(nat \<Rightarrow> real) \<Rightarrow> spark list" where
  "emit_sparks rnd = map (spark_of rnd) [0..<spark_count]"

text \<open>\<^verbatim>\<open>Math.random()\<close> returns a value in \<open>[0, 1)\<close>.\<close>

definition random_ok :: "(nat \<Rightarrow> real) \<Rightarrow> bool" where
  "random_ok rnd \<longleftrightarrow> (\<forall>k. 0 \<le> rnd k \<and> rnd k < 1)"

lemma length_emit_sparks [simp]: "length (emit_sparks rnd) = 8"
  by (simp add: emit_sparks_def spark_count_def)

lemma emit_sparks_nth: "i < 8 \<Longrightarrow> emit_sparks rnd ! i = spark_of rnd i"
  by (simp add: emit_sparks_def spark_count_def)

text \<open>
  C14.  Every burst has eight sparks, and for random values in \<open>[0, 1)\<close> the
  \<open>i\<close>-th spark flies towards the point at angle \<open>2\<pi>i/8\<close> and a radius in
  \<open>[18, 26)\<close>, each coordinate displaced by a jitter in \<open>[-3, 3)\<close>, and animates for
  a duration in \<open>[700, 1000)\<close> ms.
\<close>

theorem spark_bounds:
  assumes "random_ok rnd" and "i < 8"
  shows "length (emit_sparks rnd) = 8
       \<and> (\<exists>r. 18 \<le> r \<and> r < 26
            \<and> -3 \<le> sp_tx (emit_sparks rnd ! i) - cos (2 * pi * i / 8) * r
            \<and> sp_tx (emit_sparks rnd ! i) - cos (2 * pi * i / 8) * r < 3
            \<and> -3 \<le> sp_ty (emit_sparks rnd ! i) - sin (2 * pi * i / 8) * r
            \<and> sp_ty (emit_sparks rnd ! i) - sin (2 * pi * i / 8) * r < 3)
       \<and> 700 \<le> sp_duration (emit_sparks rnd ! i) \<and> sp_duration (emit_sparks rnd ! i) < 1000"
proof -
  have r: "\<And>k. 0 \<le> rnd k \<and> rnd k < 1"
    using assms(1) by (simp add: random_ok_def)
  have angle: "spark_angle i = 2 * pi * i / 8"
    by (simp add: spark_angle_def spark_count_def)
  let ?r = "18 + rnd (4 * i) * 8"
  have "18 \<le> ?r \<and> ?r < 26"
    using r [of "4 * i"] by simp
  moreover have "-3 \<le> rnd (4 * i + 1) * 6 - 3 \<and> rnd (4 * i + 1) * 6 - 3 < 3"
    using r [of "4 * i + 1"] by simp
  moreover have "-3 \<le> rnd (4 * i + 2) * 6 - 3 \<and> rnd (4 * i + 2) * 6 - 3 < 3"
    using r [of "4 * i + 2"] by simp
  moreover have "700 \<le> 700 + rnd (4 * i + 3) * 300 \<and> 700 + rnd (4 * i + 3) * 300 < 1000"
    using r [of "4 * i + 3"] by simp
  ultimately show ?thesis
    using assms(2)
    by (simp add: emit_sparks_nth spark_of_def Let_def angle) (rule exI [of _ ?r], simp)
qed

theorem spark_bounds_witness:
  "random_ok (\<lambda>_. 1/2) \<and> (3::nat) < 8
   \<and> 700 \<le> sp_duration (emit_sparks (\<lambda>_. 1/2) ! 3) \<and> sp_duration (emit_sparks (\<lambda>_. 1/2) ! 3) < 1000"
proof -
  have h: "random_ok (\<lambda>_. 1/2)" by (simp add: random_ok_def)
  show ?thesis using spark_bounds [OF h, of 3] h by simp
qed

end
