(* ===== verification/Render.thy ===== *)
theory Render
  imports Prelude "HOL-Library.AList"
begin

text \<open>
  Rendering: the content dataset \<^verbatim>\<open>CREDENTIALS_SECTION\<close> of
  \<^verbatim>\<open>src/timeline.js\<close>, the helper \<^verbatim>\<open>createEl\<close> and the DOM construction part of
  \<^verbatim>\<open>renderTimeline\<close> (\<^verbatim>\<open>src/credentials.js\<close> lines 8--39), and the
  \<^verbatim>\<open>DOMContentLoaded\<close> handler (lines 171--175).  A DOM node is an element with its
  tag, its attributes in insertion order and its children, or a string assigned to
  \<^verbatim>\<open>innerHTML\<close>, kept unparsed.  Strings are byte strings: the dataset's non-ASCII
  characters (typographic quotes, an em dash) are written as their UTF-8 bytes.
  \<open>query_selector\<close> is the semantics of \<^verbatim>\<open>querySelector('.cls')\<close> for
  single-class attributes: the first descendant in document order.
\<close>

record card =
  heading :: string
  date :: string
  description :: string

record timeline_section =
  sec_id :: string
  title :: string
  sec_type :: string
  cards :: "card list"

datatype node = Elem string "(string \<times> string) list" "node list" | Html string

fun append_child :: "node \<Rightarrow> node \<Rightarrow> node" where
  "append_child (Elem t a cs) c = Elem t a (cs @ [c])"
| "append_child (Html h) c = Html h"

fun set_attribute :: "node \<Rightarrow> string \<Rightarrow> string \<Rightarrow> node" where
  "set_attribute (Elem t a cs) k v = Elem t (AList.update k v a) cs"
| "set_attribute (Html h) k v = Html h"

fun set_inner_html :: "node \<Rightarrow> string \<Rightarrow> node" where
  "set_inner_html (Elem t a cs) h = Elem t a (if h = [] then [] else [Html h])"
| "set_inner_html (Html h') h = Html h'"

definition createEl :: "string \<Rightarrow> (string \<times> string) list \<Rightarrow> string option \<Rightarrow> node" where
  "createEl tag attrs html =
     (case html of None \<Rightarrow> Elem tag attrs [] | Some h \<Rightarrow> set_inner_html (Elem tag attrs []) h)"

text \<open>One card's list item (lines 28--38).\<close>

definition render_card :: "card \<Rightarrow> node" where
  "render_card c =
     (let li = createEl ''li'' [(''class'', ''timeline-item'')] None;
          dot = createEl ''div'' [(''class'', ''timeline-dot''), (''role'', ''img''), (''aria-hidden'', ''true'')] None;
          time = createEl ''time'' [] (Some (date c));
          content = createEl ''div'' [(''class'', ''timeline-content''), (''tabindex'', ''0'')] None;
          inner = set_inner_html (createEl ''div'' [(''class'', ''parallax-inner'')] None)
                    (''<h3>'' @ heading c @ ''</h3><p>'' @ description c @ ''</p>'');
          content = append_child content inner
      in append_child (append_child (append_child li dot) time) content)"

text \<open>The DOM part of \<^verbatim>\<open>renderTimeline\<close> (lines 16--39), applied to the container.\<close>

definition render_timeline :: "node \<Rightarrow> timeline_section \<Rightarrow> node" where
  "render_timeline container s =
     (let container = set_inner_html container [];
          rope = createEl ''div'' [(''class'', ''rope''), (''aria-hidden'', ''true'')] None;
          svg = createEl ''svg'' [(''class'', ''timeline-svg''), (''aria-hidden'', ''true'')] None;
          svg = set_attribute svg ''width'' ''100%'';
          svg = set_attribute svg ''height'' ''100%'';
          list = createEl ''ul'' [(''class'', ''timeline-list'')] None;
          container = append_child (append_child (append_child container rope) svg) list
      in fold (\<lambda>c n. case n of
                  Elem t a [r, v, l] \<Rightarrow> Elem t a [r, v, append_child l (render_card c)]
                | _ \<Rightarrow> n) (cards s) container)"

definition class_of :: "(string \<times> string) list \<Rightarrow> string option" where
  "class_of attrs = map_of attrs ''class''"

fun qs_forest :: "string \<Rightarrow> node list \<Rightarrow> node option" where
  "qs_forest c [] = None"
| "qs_forest c (Html h # ns) = qs_forest c ns"
| "qs_forest c (Elem t a cs # ns) =
     (if class_of a = Some c then Some (Elem t a cs)
      else case qs_forest c cs of Some n \<Rightarrow> Some n | None \<Rightarrow> qs_forest c ns)"

fun query_selector :: "string \<Rightarrow> node \<Rightarrow> node option" where
  "query_selector c (Elem t a cs) = qs_forest c cs"
| "query_selector c (Html h) = None"

text \<open>The \<^verbatim>\<open>DOMContentLoaded\<close> handler: no mount point, no action.\<close>

definition mount :: "node option \<Rightarrow> timeline_section \<Rightarrow> node option" where
  "mount root_el s = (case root_el of None \<Rightarrow> None | Some r \<Rightarrow> Some (render_timeline r s))"

text \<open>\<^verbatim>\<open>src/timeline.js\<close>, lines 1--37.\<close>

definition CREDENTIALS_SECTION :: timeline_section where
  "CREDENTIALS_SECTION =
   \<lparr>sec_id = ''credentials'', title = ''Credentials'', sec_type = ''timeline'',
    cards = [
    \<lparr>heading = ''First Steps into Design'',
     date = ''2020'',
     description = ''Started exploring UI/UX and graphic design using Figma, learning interface basics and modern design principles through self-practice.''\<rparr>,
    \<lparr>heading = ''Began Bachelor'' @ [CHR 0xE2, CHR 0x80, CHR 0x99] @ ''s in Computer Engineering'',
     date = ''2021'',
     description = ''Began my Bachelor'' @ [CHR 0xE2, CHR 0x80, CHR 0x99] @ ''s in Computer Engineering at Cosmos College of Management and Technology, diving into programming, systems, and tech fundamentals.''\<rparr>,
    \<lparr>heading = ''Leveling Up in Design Tools'',
     date = ''2022'',
     description = ''Expanded my skills in Adobe Illustrator and Canva, learning to combine visual aesthetics with brand-focused design for creative projects.''\<rparr>,
    \<lparr>heading = ''Built '' @ [CHR 0xE2, CHR 0x80, CHR 0x98] @ ''Park In'' @ [CHR 0xE2, CHR 0x80, CHR 0x99] @ '' Prototype'',
     date = ''2023'',
     description = ''Designed and developed Park In, a parking assistant app built using Flutter, integrating smart parking flow and user-friendly design.''\<rparr>,
    \<lparr>heading = ''Creative Lead at CosmoFest 2025'',
     date = ''2024'',
     description = ''Worked as the lead graphic designer for CosmoFest 2025, creating visual identities and promotional materials'' @ [CHR 0xE2, CHR 0x80, CHR 0x94] @ ''won 1st place in project demonstration competition.''\<rparr>,
    \<lparr>heading = ''Deep Diving into DevOps & Automation'',
     date = ''2025'',
     description = ''Pursuing advanced learning in DevOps, automation, Linux, and system reliability while refining UI/UX and development skills.''\<rparr>]\<rparr>"

text \<open>Observers of the rendered tree used to state the properties.\<close>

fun child :: "nat \<Rightarrow> node \<Rightarrow> node option" where
  "child i (Elem t a cs) = (if i < length cs then Some (cs ! i) else None)"
| "child i (Html h) = None"
definition inner_html :: "node \<Rightarrow> string" where
  "inner_html n = (case n of Elem t a cs \<Rightarrow> concat [h. Html h \<leftarrow> cs] | Html h \<Rightarrow> h)"
definition timeline_items :: "node \<Rightarrow> node list" where
  "timeline_items n = (case child 2 n of Some (Elem t a lis) \<Rightarrow> lis | _ \<Rightarrow> [])"

subsection \<open>Properties of rendering\<close>

lemma render_card_eq:
  "render_card c = Elem ''li'' [(''class'', ''timeline-item'')]
     [Elem ''div'' [(''class'', ''timeline-dot''), (''role'', ''img''), (''aria-hidden'', ''true'')] [],
      set_inner_html (Elem ''time'' [] []) (date c),
      Elem ''div'' [(''class'', ''timeline-content''), (''tabindex'', ''0'')]
        [Elem ''div'' [(''class'', ''parallax-inner'')]
           [Html (''<h3>'' @ heading c @ ''</h3><p>'' @ description c @ ''</p>'')]]]"
  by (simp add: render_card_def createEl_def)

lemma render_fold:
  "fold (\<lambda>c n. case n of Elem t a [r, v, l] \<Rightarrow> Elem t a [r, v, append_child l (render_card c)] | _ \<Rightarrow> n)
     cs (Elem t a [r, v, Elem ut al ls]) = Elem t a [r, v, Elem ut al (ls @ map render_card cs)]"
  by (induction cs arbitrary: ls) simp_all

lemma render_timeline_eq:
  "render_timeline (Elem t a cs) s =
     Elem t a [Elem ''div'' [(''class'', ''rope''), (''aria-hidden'', ''true'')] [],
               Elem ''svg'' [(''class'', ''timeline-svg''), (''aria-hidden'', ''true''), (''width'', ''100%''), (''height'', ''100%'')] [],
               Elem ''ul'' [(''class'', ''timeline-list'')] (map render_card (cards s))]"
  by (simp add: render_timeline_def createEl_def render_fold)

text \<open>
  C16.  Rendering a section into a container replaces the container's children by the
  rope, the SVG surface and the list, and the list holds exactly one item per card, in
  the dataset's order, whose \<^verbatim>\<open>time\<close> element carries the card's date.
\<close>

theorem render_items_dates:
  "timeline_items (render_timeline (Elem t a cs) s) = map render_card (cards s)
   \<and> map (\<lambda>li. map_option inner_html (child 1 li)) (timeline_items (render_timeline (Elem t a cs) s))
     = map (\<lambda>c. Some (date c)) (cards s)"
  by (simp add: render_timeline_eq timeline_items_def render_card_eq inner_html_def comp_def)

lemma render_card_query:
  "query_selector ''timeline-dot'' (render_card c) =
     Some (Elem ''div'' [(''class'', ''timeline-dot''), (''role'', ''img''), (''aria-hidden'', ''true'')] [])
   \<and> query_selector ''timeline-content'' (render_card c) \<noteq> None"
  by (simp add: render_card_eq class_of_def)

end
