(* ===== verification/Page.thy ===== *)
theory Page
  imports Geometry Scheduler Drag Sparkle Render
begin

text \<open>
  The page: everything \<^verbatim>\<open>renderTimeline\<close> of \<^verbatim>\<open>src/credentials.js\<close> sets up after
  building the DOM (lines 41--108), with the browser around it.  The state is one record:
  the clock, the layout the browser reports (the container's box and the untransformed
  boxes of every marker and content element), the scheduler of theory \<open>Scheduler\<close>,
  the children of the SVG surface, per card its \<^verbatim>\<open>in-view\<close> class and drag state,
  the pending \<^verbatim>\<open>setTimeout\<close> callbacks, the closure variable \<^verbatim>\<open>resizeTimer\<close>,
  the sparkle bursts attached to the markers, and the configuration read once
  (\<^verbatim>\<open>PREFERS_REDUCED\<close>, the animation library's easing).  \<open>passes\<close> counts
  geometry passes; it is a ghost counter the code does not keep.

  Each browser event is one case of \<open>step\<close>; the result is \<open>None\<close> for an event the
  browser cannot deliver in that state (a timer that is not pending or not due, a drag
  event for a card with no gesture in progress, an index out of range, a layout that
  does not have one box per element).
\<close>

record layout =
  container_rect :: rect
  dot_rects :: "rect list"
  content_rects :: "rect list"

datatype timer_cb = TDraw | TRemoveBurst nat

record timer =
  t_id :: nat
  t_due :: nat
  t_cb :: timer_cb

record burst =
  b_id :: nat
  b_item :: nat
  b_created :: nat
  b_sparks :: "spark list"

record card_rt =
  in_view :: bool
  drag :: drag_st

record page =
  now :: nat
  lay :: layout
  sch :: sched
  svg :: "conn_path list"
  items :: "card_rt list"
  timers :: "timer list"
  next_timer :: nat
  resize_timer :: "nat option"
  bursts :: "burst list"
  next_burst :: nat
  prefers_reduced :: bool
  ease :: "real \<Rightarrow> real"
  passes :: nat

datatype event =
    Scroll real
  | Resize layout
  | Frame
  | Tick nat
  | Fire nat
  | DragStart nat
  | DragMove nat real real
  | DragEnd nat
  | Intersect nat bool "nat \<Rightarrow> real"

definition resize_delay :: nat where
  "resize_delay = 120"

definition card_rt_init :: card_rt where
  "card_rt_init = \<lparr>in_view = False, drag = drag_init\<rparr>"

definition layout_fits :: "layout \<Rightarrow> nat \<Rightarrow> bool" where
  "layout_fits l n \<longleftrightarrow> length (dot_rects l) = n \<and> length (content_rects l) = n"

definition shift_layout :: "layout \<Rightarrow> vec \<Rightarrow> layout" where
  "shift_layout l v =
     \<lparr>container_rect = shift_rect (container_rect l) v,
      dot_rects = map (\<lambda>r. shift_rect r v) (dot_rects l),
      content_rects = map (\<lambda>r. shift_rect r v) (content_rects l)\<rparr>"

subsection \<open>Browser services\<close>

definition set_timeout :: "page \<Rightarrow> nat \<Rightarrow> timer_cb \<Rightarrow> nat \<times> page" where
  "set_timeout s delay cb =
     (next_timer s,
      s\<lparr>timers := timers s @ [\<lparr>t_id = next_timer s, t_due = now s + delay, t_cb = cb\<rparr>],
        next_timer := Suc (next_timer s)\<rparr>)"

definition clear_timeout :: "page \<Rightarrow> nat option \<Rightarrow> page" where
  "clear_timeout s h =
     (case h of None \<Rightarrow> s | Some i \<Rightarrow> s\<lparr>timers := [t \<leftarrow> timers s. t_id t \<noteq> i]\<rparr>)"

subsection \<open>The handlers\<close>

text \<open>\<^verbatim>\<open>drawConnectors\<close> (lines 43--47), the \<^verbatim>\<open>onUpdate\<close> of the drag controller.\<close>

definition request_redraw :: "page \<Rightarrow> page" where
  "request_redraw s = s\<lparr>sch := draw_connectors (sch s)\<rparr>"

text \<open>
  What the pass reads through \<^verbatim>\<open>querySelector\<close> and \<^verbatim>\<open>getBoundingClientRect\<close>
  (lines 50--57): for every list item in order, its marker's box and its content's box
  moved by the transform the content shows now.
\<close>

definition live_geoms :: "page \<Rightarrow> item_geom list" where
  "live_geoms s =
     map (\<lambda>((d, c), it). (Some d, Some (shift_rect c (visual_offset (ease s) (now s) (drag it)))))
       (zip (zip (dot_rects (lay s)) (content_rects (lay s))) (items s))"

text \<open>The \<^verbatim>\<open>requestAnimationFrame\<close> callback (lines 46--82).\<close>

definition connector_frame :: "page \<Rightarrow> page" where
  "connector_frame s =
     s\<lparr>sch := begin_pass (sch s),
       svg := connector_pass (container_rect (lay s)) (live_geoms s),
       passes := Suc (passes s)\<rparr>"

fun run_raf_cb :: "page \<Rightarrow> raf_cb \<Rightarrow> page" where
  "run_raf_cb s ConnectorPass = connector_frame s"

definition frame :: "page \<Rightarrow> page" where
  "frame s = (let (cbs, sc) = take_frame (sch s) in fold (\<lambda>cb s. run_raf_cb s cb) cbs (s\<lparr>sch := sc\<rparr>))"

text \<open>The \<^verbatim>\<open>resize\<close> listener (line 104).\<close>

definition on_resize :: "page \<Rightarrow> page" where
  "on_resize s =
     (let s = clear_timeout s (resize_timer s);
          (h, s) = set_timeout s resize_delay TDraw
      in s\<lparr>resize_timer := Some h\<rparr>)"

text \<open>The sparkle of the \<^verbatim>\<open>IntersectionObserver\<close> callback (lines 91--92, 111--134).\<close>

definition emit_dot_sparkle :: "page \<Rightarrow> nat \<Rightarrow> (nat \<Rightarrow> real) \<Rightarrow> page" where
  "emit_dot_sparkle s i rnd =
     (if prefers_reduced s then s
      else let b = \<lparr>b_id = next_burst s, b_item = i, b_created = now s, b_sparks = emit_sparks rnd\<rparr>;
               s = s\<lparr>bursts := bursts s @ [b], next_burst := Suc (next_burst s)\<rparr>
           in snd (set_timeout s burst_lifetime (TRemoveBurst (b_id b))))"

text \<open>One entry of the \<^verbatim>\<open>IntersectionObserver\<close> callback (lines 87--94).\<close>

definition on_intersect :: "page \<Rightarrow> nat \<Rightarrow> bool \<Rightarrow> (nat \<Rightarrow> real) \<Rightarrow> page" where
  "on_intersect s i vis rnd =
     (if vis
      then emit_dot_sparkle (s\<lparr>items := (items s)[i := (items s ! i)\<lparr>in_view := True\<rparr>]\<rparr>) i rnd
      else s)"

definition update_drag :: "page \<Rightarrow> nat \<Rightarrow> (drag_st \<Rightarrow> drag_st) \<Rightarrow> page" where
  "update_drag s i f = s\<lparr>items := (items s)[i := (items s ! i)\<lparr>drag := f (drag (items s ! i))\<rparr>]\<rparr>"

text \<open>The timer callbacks: the debounced or post-snap redraw, and the burst removal.\<close>

fun run_timer_cb :: "page \<Rightarrow> timer_cb \<Rightarrow> page" where
  "run_timer_cb s TDraw = request_redraw s"
| "run_timer_cb s (TRemoveBurst b) = s\<lparr>bursts := [x \<leftarrow> bursts s. b_id x \<noteq> b]\<rparr>"

definition fire_timer :: "page \<Rightarrow> nat \<Rightarrow> page option" where
  "fire_timer s h =
     (case find (\<lambda>t. t_id t = h) (timers s) of
        None \<Rightarrow> None
      | Some t \<Rightarrow>
          if t_due t \<le> now s
          then Some (run_timer_cb (s\<lparr>timers := [u \<leftarrow> timers s. t_id u \<noteq> h]\<rparr>) (t_cb t))
          else None)"

definition drag_guard :: "page \<Rightarrow> nat \<Rightarrow> bool" where
  "drag_guard s i \<longleftrightarrow> i < length (items s) \<and> dragging (drag (items s ! i))"

fun step :: "page \<Rightarrow> event \<Rightarrow> page option" where
  "step s (Scroll dy) = Some (request_redraw (s\<lparr>lay := shift_layout (lay s) (0, - dy)\<rparr>))"
| "step s (Resize l) =
     (if layout_fits l (length (items s)) then Some (on_resize (s\<lparr>lay := l\<rparr>)) else None)"
| "step s Frame = Some (frame s)"
| "step s (Tick n) = Some (s\<lparr>now := now s + n\<rparr>)"
| "step s (Fire h) = fire_timer s h"
| "step s (DragStart i) =
     (if i < length (items s) \<and> \<not> dragging (drag (items s ! i))
      then Some (update_drag s i drag_start) else None)"
| "step s (DragMove i dx dy) =
     (if drag_guard s i
      then Some (request_redraw (update_drag s i (\<lambda>d. drag_move (now s) d dx dy))) else None)"
| "step s (DragEnd i) =
     (if drag_guard s i
      then Some (snd (set_timeout (update_drag s i (drag_end (ease s) (now s))) snap_redraw_delay TDraw))
      else None)"
| "step s (Intersect i vis rnd) =
     (if i < length (items s) then Some (on_intersect s i vis rnd) else None)"

fun run :: "page \<Rightarrow> event list \<Rightarrow> page option" where
  "run s [] = Some s"
| "run s (e # es) = (case step s e of None \<Rightarrow> None | Some s' \<Rightarrow> run s' es)"

subsection \<open>Mounting\<close>

text \<open>
  The state right after \<^verbatim>\<open>renderTimeline\<close> returns: the cards' runtime state is fresh,
  and the initial \<^verbatim>\<open>drawConnectors()\<close> (line 100) has queued one pass.  Timer handles
  start at 1, as in browsers.
\<close>

definition page_init :: "layout \<Rightarrow> bool \<Rightarrow> (real \<Rightarrow> real) \<Rightarrow> nat \<Rightarrow> page" where
  "page_init l red e n =
     \<lparr>now = 0, lay = l, sch = draw_connectors sched_init, svg = [], items = replicate n card_rt_init,
      timers = [], next_timer = 1, resize_timer = None, bursts = [], next_burst = 0,
      prefers_reduced = red, ease = e, passes = 0\<rparr>"

definition dom_content_loaded ::
  "node option \<Rightarrow> timeline_section \<Rightarrow> layout \<Rightarrow> bool \<Rightarrow> (real \<Rightarrow> real) \<Rightarrow> (node \<times> page) option" where
  "dom_content_loaded root_el sec l red e =
     (case mount root_el sec of
        None \<Rightarrow> None
      | Some tree \<Rightarrow> Some (tree, page_init l red e (length (cards sec))))"

inductive reach :: "page \<Rightarrow> bool" where
  init: "layout_fits l n \<Longrightarrow> reach (page_init l red e n)"
| step: "reach s \<Longrightarrow> step s ev = Some s' \<Longrightarrow> reach s'"

subsection \<open>The page invariant\<close>

text \<open>
  Timer handles are fresh and distinct, and \<^verbatim>\<open>resizeTimer\<close> only ever names a redraw
  timer; every live burst has its pending removal timer, due 1200 ms after the burst was
  created; with reduced motion there is no burst at all.
\<close>

definition timers_ok :: "page \<Rightarrow> bool" where
  "timers_ok s \<longleftrightarrow> (\<forall>t \<in> set (timers s). t_id t < next_timer s) \<and> distinct (map t_id (timers s))
     \<and> (\<forall>h. resize_timer s = Some h \<longrightarrow> h < next_timer s \<and> (\<forall>t \<in> set (timers s). t_id t = h \<longrightarrow> t_cb t = TDraw))"

definition bursts_ok :: "page \<Rightarrow> bool" where
  "bursts_ok s \<longleftrightarrow> (\<forall>b \<in> set (bursts s). \<exists>t \<in> set (timers s).
      t_cb t = TRemoveBurst (b_id b) \<and> t_due t = b_created b + burst_lifetime)
     \<and> (prefers_reduced s \<longrightarrow> bursts s = [])"

definition page_inv :: "page \<Rightarrow> bool" where
  "page_inv s \<longleftrightarrow> sched_inv (sch s) \<and> layout_fits (lay s) (length (items s)) \<and> timers_ok s \<and> bursts_ok s"

text \<open>A layout with one card, used by the witnesses.\<close>

definition demo_layout :: layout where
  "demo_layout =
     \<lparr>container_rect = \<lparr>r_left = 0, r_top = 0, r_width = 800, r_height = 600\<rparr>,
      dot_rects = [\<lparr>r_left = 396, r_top = 96, r_width = 8, r_height = 8\<rparr>],
      content_rects = [\<lparr>r_left = 440, r_top = 80, r_width = 300, r_height = 40\<rparr>]\<rparr>"

text \<open>The three-card example of the specification's section 8, with a layout for it.\<close>

definition abc_section :: timeline_section where
  "abc_section =
     \<lparr>sec_id = ''credentials'', title = ''Credentials'', sec_type = ''timeline'',
      cards = [\<lparr>heading = ''A'', date = ''2020'', description = ''a''\<rparr>,
               \<lparr>heading = ''B'', date = ''2021'', description = ''b''\<rparr>,
               \<lparr>heading = ''C'', date = ''2022'', description = ''c''\<rparr>]\<rparr>"

definition abc_layout :: layout where
  "abc_layout =
     \<lparr>container_rect = \<lparr>r_left = 0, r_top = 0, r_width = 800, r_height = 900\<rparr>,
      dot_rects = [\<lparr>r_left = 396, r_top = 96, r_width = 8, r_height = 8\<rparr>, \<lparr>r_left = 396, r_top = 396, r_width = 8, r_height = 8\<rparr>, \<lparr>r_left = 396, r_top = 696, r_width = 8, r_height = 8\<rparr>],
      content_rects = [\<lparr>r_left = 440, r_top = 80, r_width = 300, r_height = 40\<rparr>, \<lparr>r_left = 60, r_top = 380, r_width = 300, r_height = 40\<rparr>, \<lparr>r_left = 440, r_top = 680, r_width = 300, r_height = 40\<rparr>]\<rparr>"

subsection \<open>Invariant preservation, one handler at a time\<close>

lemma set_timeout_fields [simp]:
  "fst (set_timeout s d cb) = next_timer s"
  "timers (snd (set_timeout s d cb)) = timers s @ [\<lparr>t_id = next_timer s, t_due = now s + d, t_cb = cb\<rparr>]"
  "next_timer (snd (set_timeout s d cb)) = Suc (next_timer s)"
  "now (snd (set_timeout s d cb)) = now s" "lay (snd (set_timeout s d cb)) = lay s"
  "sch (snd (set_timeout s d cb)) = sch s" "svg (snd (set_timeout s d cb)) = svg s"
  "items (snd (set_timeout s d cb)) = items s" "resize_timer (snd (set_timeout s d cb)) = resize_timer s"
  "bursts (snd (set_timeout s d cb)) = bursts s" "next_burst (snd (set_timeout s d cb)) = next_burst s"
  "prefers_reduced (snd (set_timeout s d cb)) = prefers_reduced s"
  "ease (snd (set_timeout s d cb)) = ease s" "passes (snd (set_timeout s d cb)) = passes s"
  by (simp_all add: set_timeout_def)

lemma timers_ok_set_timeout:
  "timers_ok s \<Longrightarrow> timers_ok (snd (set_timeout s d cb))"
  unfolding timers_ok_def by (auto simp: less_Suc_eq)

lemma bursts_ok_set_timeout:
  "bursts_ok s \<Longrightarrow> bursts_ok (snd (set_timeout s d cb))"
  unfolding bursts_ok_def by auto

lemma frame_eq:
  assumes "sched_inv (sch s)"
  shows "frame s = (if scheduled (sch s) then connector_frame (s\<lparr>sch := (sch s)\<lparr>raf_queue := []\<rparr>\<rparr>) else s)"
  using assms by (cases "sch s") (simp add: frame_def take_frame_def sched_inv_def)

lemma page_inv_frame: "page_inv s \<Longrightarrow> page_inv (frame s)"
  by (auto simp: page_inv_def frame_eq connector_frame_def timers_ok_def bursts_ok_def)

lemma page_inv_request_redraw: "page_inv s \<Longrightarrow> page_inv (request_redraw s)"
  by (simp add: page_inv_def request_redraw_def timers_ok_def bursts_ok_def)

lemma page_inv_update_drag: "page_inv s \<Longrightarrow> page_inv (update_drag s i f)"
  by (simp add: page_inv_def update_drag_def timers_ok_def bursts_ok_def)

lemma bursts_ok_drop_draw_timers:
  assumes "bursts_ok s" and "\<forall>t \<in> set (timers s). P t \<longrightarrow> t_cb t = TDraw"
  shows "bursts_ok (s\<lparr>timers := [t \<leftarrow> timers s. \<not> P t]\<rparr>)"
  using assms unfolding bursts_ok_def by fastforce

lemma clear_timeout_eq:
  "clear_timeout s h = s\<lparr>timers := (case h of None \<Rightarrow> timers s | Some i \<Rightarrow> [t \<leftarrow> timers s. t_id t \<noteq> i])\<rparr>"
  by (cases h) (simp_all add: clear_timeout_def)

lemma on_resize_eq:
  "on_resize s = (let c = clear_timeout s (resize_timer s)
                  in (snd (set_timeout c resize_delay TDraw))\<lparr>resize_timer := Some (next_timer c)\<rparr>)"
  by (simp add: on_resize_def set_timeout_def Let_def)

lemma timers_ok_clear_resize:
  "timers_ok s \<Longrightarrow> timers_ok (clear_timeout s (resize_timer s))"
  by (cases "resize_timer s") (auto simp: timers_ok_def clear_timeout_def distinct_map_filter)

lemma bursts_ok_clear_resize:
  "timers_ok s \<Longrightarrow> bursts_ok s \<Longrightarrow> bursts_ok (clear_timeout s (resize_timer s))"
  using bursts_ok_drop_draw_timers [of s "\<lambda>t. Some (t_id t) = resize_timer s"]
  by (cases "resize_timer s") (auto simp: timers_ok_def clear_timeout_def)

lemma timers_ok_set_resize:
  "timers_ok s \<Longrightarrow> timers_ok ((snd (set_timeout s d TDraw))\<lparr>resize_timer := Some (next_timer s)\<rparr>)"
  by (auto simp: timers_ok_def less_Suc_eq)

lemma page_inv_on_resize:
  assumes "page_inv s" and "layout_fits l (length (items s))"
  shows "page_inv (on_resize (s\<lparr>lay := l\<rparr>))"
proof -
  let ?s = "s\<lparr>lay := l\<rparr>"
  let ?c = "clear_timeout ?s (resize_timer ?s)"
  have t: "timers_ok ?s" and b: "bursts_ok ?s"
    using assms(1) by (simp_all add: page_inv_def timers_ok_def bursts_ok_def)
  have "timers_ok ?c" using t by (rule timers_ok_clear_resize)
  moreover have "bursts_ok ?c" using t b by (rule bursts_ok_clear_resize)
  ultimately show ?thesis
    using assms timers_ok_set_resize [of ?c resize_delay] bursts_ok_set_timeout [of ?c resize_delay TDraw]
    by (simp add: on_resize_eq Let_def page_inv_def bursts_ok_def clear_timeout_eq)
qed
lemma timers_ok_drop_id:
  "timers_ok s \<Longrightarrow> timers_ok (s\<lparr>timers := [u \<leftarrow> timers s. t_id u \<noteq> h]\<rparr>)"
  by (auto simp: timers_ok_def distinct_map_filter)

lemma page_inv_fire:
  assumes inv: "page_inv s" and fire: "fire_timer s h = Some s'"
  shows "page_inv s'"
proof -
  obtain t where t: "find (\<lambda>t. t_id t = h) (timers s) = Some t"
    and s': "s' = run_timer_cb (s\<lparr>timers := [u \<leftarrow> timers s. t_id u \<noteq> h]\<rparr>) (t_cb t)"
    using fire by (auto simp: fire_timer_def split: option.splits if_splits)
  let ?r = "s\<lparr>timers := [u \<leftarrow> timers s. t_id u \<noteq> h]\<rparr>"
  have tin: "t \<in> set (timers s)" and tid: "t_id t = h"
    using find_SomeD [OF t] by auto
  have dist: "distinct (map t_id (timers s))"
    using inv by (simp add: page_inv_def timers_ok_def)
  have only_t: "\<And>u. u \<in> set (timers s) \<Longrightarrow> t_id u = h \<Longrightarrow> u = t"
    using distinct_map_eqD [OF dist] tin tid by metis
  have r: "sched_inv (sch ?r) \<and> layout_fits (lay ?r) (length (items ?r)) \<and> timers_ok ?r"
    using inv timers_ok_drop_id [of s h] by (simp add: page_inv_def)
  show ?thesis
  proof (cases "t_cb t")
    case TDraw
    have "bursts_ok ?r"
      using inv only_t TDraw bursts_ok_drop_draw_timers [of s "\<lambda>u. t_id u = h"]
      by (auto simp: page_inv_def)
    then have "page_inv ?r" using r by (simp add: page_inv_def)
    then show ?thesis using s' TDraw by (simp add: page_inv_request_redraw)
  next
    case (TRemoveBurst x)
    have "bursts_ok (?r\<lparr>bursts := [b \<leftarrow> bursts s. b_id b \<noteq> x]\<rparr>)"
      unfolding bursts_ok_def
    proof (intro conjI ballI impI)
      fix b assume "b \<in> set (bursts (?r\<lparr>bursts := [b \<leftarrow> bursts s. b_id b \<noteq> x]\<rparr>))"
      then have b: "b \<in> set (bursts s)" "b_id b \<noteq> x" by auto
      then obtain u where u: "u \<in> set (timers s)" "t_cb u = TRemoveBurst (b_id b)"
        "t_due u = b_created b + burst_lifetime"
        using inv by (auto simp: page_inv_def bursts_ok_def)
      have "t_id u \<noteq> h"
        using only_t [OF u(1)] u(2) b(2) TRemoveBurst by auto
      then show "\<exists>u \<in> set (timers (?r\<lparr>bursts := [b \<leftarrow> bursts s. b_id b \<noteq> x]\<rparr>)).
          t_cb u = TRemoveBurst (b_id b) \<and> t_due u = b_created b + burst_lifetime"
        using u by auto
    next
      assume "prefers_reduced (?r\<lparr>bursts := [b \<leftarrow> bursts s. b_id b \<noteq> x]\<rparr>)"
      then show "bursts (?r\<lparr>bursts := [b \<leftarrow> bursts s. b_id b \<noteq> x]\<rparr>) = []"
        using inv by (simp add: page_inv_def bursts_ok_def)
    qed
    then show ?thesis
      using r s' TRemoveBurst by (simp add: page_inv_def timers_ok_def)
  qed
qed

lemma page_inv_emit:
  assumes "page_inv s"
  shows "page_inv (emit_dot_sparkle s i rnd)"
proof (cases "prefers_reduced s")
  case True
  then show ?thesis using assms by (simp add: emit_dot_sparkle_def)
next
  case False
  let ?b = "\<lparr>b_id = next_burst s, b_item = i, b_created = now s, b_sparks = emit_sparks rnd\<rparr>"
  let ?m = "s\<lparr>bursts := bursts s @ [?b], next_burst := Suc (next_burst s)\<rparr>"
  have "timers_ok ?m" using assms by (simp add: page_inv_def timers_ok_def)
  then have "timers_ok (snd (set_timeout ?m burst_lifetime (TRemoveBurst (next_burst s))))"
    by (rule timers_ok_set_timeout)
  moreover have "bursts_ok (snd (set_timeout ?m burst_lifetime (TRemoveBurst (next_burst s))))"
    using assms False by (auto simp: page_inv_def bursts_ok_def)
  ultimately show ?thesis
    using assms False by (simp add: emit_dot_sparkle_def page_inv_def)
qed

lemma page_inv_items_update:
  "page_inv s \<Longrightarrow> page_inv (s\<lparr>items := (items s)[i := c]\<rparr>)"
  by (simp add: page_inv_def timers_ok_def bursts_ok_def)

lemma page_inv_set_timeout:
  "page_inv s \<Longrightarrow> page_inv (snd (set_timeout s d cb))"
  using timers_ok_set_timeout bursts_ok_set_timeout by (simp add: page_inv_def)

lemma layout_fits_shift [simp]: "layout_fits (shift_layout l v) n = layout_fits l n"
  by (simp add: layout_fits_def shift_layout_def)

lemma page_inv_step:
  assumes "page_inv s" and "step s e = Some s'"
  shows "page_inv s'"
  using assms
proof (cases e)
  case (Scroll dy)
  have "page_inv (s\<lparr>lay := shift_layout (lay s) (0, - dy)\<rparr>)"
    using assms(1) by (simp add: page_inv_def timers_ok_def bursts_ok_def)
  then show ?thesis using assms(2) Scroll by (auto simp: page_inv_request_redraw)
next
  case (Resize l)
  then show ?thesis using assms page_inv_on_resize by (auto split: if_splits)
next
  case Frame
  then show ?thesis using assms page_inv_frame by auto
next
  case (Tick n)
  then show ?thesis using assms by (auto simp: page_inv_def timers_ok_def bursts_ok_def)
next
  case (Fire h)
  then show ?thesis using assms page_inv_fire by auto
next
  case (DragStart i)
  then show ?thesis using assms page_inv_update_drag by (auto split: if_splits)
next
  case (DragMove i dx dy)
  then show ?thesis
    using assms page_inv_update_drag page_inv_request_redraw by (auto split: if_splits)
next
  case (DragEnd i)
  then show ?thesis
    using assms page_inv_update_drag page_inv_set_timeout by (auto split: if_splits)
next
  case (Intersect i vis rnd)
  then show ?thesis
    using assms page_inv_items_update page_inv_emit
    by (auto simp: on_intersect_def split: if_splits)
qed

lemma page_inv_init: "layout_fits l n \<Longrightarrow> page_inv (page_init l red e n)"
  by (simp add: page_inv_def page_init_def timers_ok_def bursts_ok_def)

lemma reach_page_inv: "reach s \<Longrightarrow> page_inv s"
  by (induction rule: reach.induct) (auto intro: page_inv_init page_inv_step)

subsection \<open>Frame lemmas on the other fields\<close>

lemma reach_demo: "reach (page_init demo_layout red e 1)"
  by (rule reach.init) (simp add: layout_fits_def demo_layout_def)

lemma fold_run_raf_cb_fields:
  "items (fold (\<lambda>cb s. run_raf_cb s cb) cbs s) = items s
   \<and> timers (fold (\<lambda>cb s. run_raf_cb s cb) cbs s) = timers s
   \<and> bursts (fold (\<lambda>cb s. run_raf_cb s cb) cbs s) = bursts s
   \<and> lay (fold (\<lambda>cb s. run_raf_cb s cb) cbs s) = lay s
   \<and> now (fold (\<lambda>cb s. run_raf_cb s cb) cbs s) = now s
   \<and> ease (fold (\<lambda>cb s. run_raf_cb s cb) cbs s) = ease s
   \<and> prefers_reduced (fold (\<lambda>cb s. run_raf_cb s cb) cbs s) = prefers_reduced s"
proof (induction cbs arbitrary: s)
  case Nil
  then show ?case by simp
next
  case (Cons cb cbs)
  then show ?case by (cases cb) (simp add: connector_frame_def)
qed

lemma frame_fields [simp]:
  "items (frame s) = items s" "timers (frame s) = timers s" "bursts (frame s) = bursts s"
  "lay (frame s) = lay s" "now (frame s) = now s" "ease (frame s) = ease s"
  "prefers_reduced (frame s) = prefers_reduced s"
  using fold_run_raf_cb_fields [of _ "s\<lparr>sch := snd (take_frame (sch s))\<rparr>"]
  by (simp_all add: frame_def take_frame_def)

lemma items_request_redraw [simp]: "items (request_redraw s) = items s"
  by (simp add: request_redraw_def)

lemma items_on_resize [simp]: "items (on_resize s) = items s"
  by (simp add: on_resize_def Let_def set_timeout_def clear_timeout_eq)

lemma items_emit [simp]: "items (emit_dot_sparkle s i rnd) = items s"
  by (simp add: emit_dot_sparkle_def Let_def)

lemma items_run_timer_cb [simp]: "items (run_timer_cb s cb) = items s"
  by (cases cb) (simp_all add: request_redraw_def)

lemma now_run_timer_cb [simp]: "now (run_timer_cb s cb) = now s"
  by (cases cb) (simp_all add: request_redraw_def)

lemma items_fire_timer: "fire_timer s h = Some s' \<Longrightarrow> items s' = items s"
  by (auto simp: fire_timer_def split: option.splits if_splits)

lemma items_update_drag:
  "items (update_drag s i f) = (items s)[i := (items s ! i)\<lparr>drag := f (drag (items s ! i))\<rparr>]"
  by (simp add: update_drag_def)

lemma items_on_intersect:
  "items (on_intersect s i vis rnd) = (if vis then (items s)[i := (items s ! i)\<lparr>in_view := True\<rparr>] else items s)"
  by (simp add: on_intersect_def)

text \<open>
  C10.  The reveal state is monotone: once an item carries the \<^verbatim>\<open>in-view\<close> class,
  no event removes it, and no event changes the number of items.
\<close>

theorem in_view_monotone:
  assumes "step s e = Some s'" and "i < length (items s)" and "in_view (items s ! i)"
  shows "length (items s') = length (items s) \<and> in_view (items s' ! i)"
  using assms
proof (cases e)
  case (Fire h)
  then show ?thesis using assms items_fire_timer by auto
next
  case (DragStart j)
  then show ?thesis using assms by (cases "i = j") (auto simp: items_update_drag split: if_splits)
next
  case (DragMove j dx dy)
  then show ?thesis using assms by (cases "i = j") (auto simp: items_update_drag split: if_splits)
next
  case (DragEnd j)
  then show ?thesis using assms by (cases "i = j") (auto simp: items_update_drag split: if_splits)
next
  case (Intersect j vis rnd)
  then show ?thesis using assms by (cases "i = j") (auto simp: items_on_intersect split: if_splits)
qed (auto split: if_splits)


theorem in_view_monotone_witness:
  "step (on_intersect (page_init demo_layout False (\<lambda>x. x) 1) 0 True (\<lambda>_. 0)) (Scroll 5)
     = Some (request_redraw ((on_intersect (page_init demo_layout False (\<lambda>x. x) 1) 0 True (\<lambda>_. 0))
         \<lparr>lay := shift_layout demo_layout (0, - 5)\<rparr>))
   \<and> in_view (items (request_redraw ((on_intersect (page_init demo_layout False (\<lambda>x. x) 1) 0 True (\<lambda>_. 0))
         \<lparr>lay := shift_layout demo_layout (0, - 5)\<rparr>)) ! 0)"
proof -
  let ?s = "on_intersect (page_init demo_layout False (\<lambda>x. x) 1) 0 True (\<lambda>_. 0)"
  let ?s' = "request_redraw (?s\<lparr>lay := shift_layout demo_layout (0, - 5)\<rparr>)"
  have st: "step ?s (Scroll 5) = Some ?s'"
    by (simp add: on_intersect_def emit_dot_sparkle_def Let_def set_timeout_def page_init_def)
  have i: "0 < length (items ?s)" "in_view (items ?s ! 0)"
    by (simp_all add: on_intersect_def page_init_def)
  show ?thesis using in_view_monotone [OF st i] st by simp
qed

lemma live_geoms_sch [simp]: "live_geoms (s\<lparr>sch := c\<rparr>) = live_geoms s"
  by (simp add: live_geoms_def)

text \<open>
  C6.  In every reachable state a frame runs the connector pass exactly when one is
  pending: it rebuilds the SVG surface wholesale from the geometry the page has at that
  moment (the live layout and the transforms shown at the frame's time), independently of
  what the surface held before, counts one pass and clears the flag; with nothing pending
  the frame changes nothing.
\<close>

theorem frame_draws_live:
  assumes "reach s"
  shows "step s Frame = Some (frame s) \<and> \<not> scheduled (sch (frame s)) \<and> raf_queue (sch (frame s)) = []
     \<and> (if scheduled (sch s)
        then svg (frame s) = connector_pass (container_rect (lay s)) (live_geoms s)
             \<and> passes (frame s) = Suc (passes s)
        else svg (frame s) = svg s \<and> passes (frame s) = passes s)"
proof -
  have inv: "sched_inv (sch s)"
    using reach_page_inv [OF assms] by (simp add: page_inv_def)
  show ?thesis
  proof (cases "scheduled (sch s)")
    case True
    then show ?thesis using inv by (simp add: frame_eq connector_frame_def)
  next
    case False
    then show ?thesis using inv by (simp add: frame_eq sched_inv_def)
  qed
qed

theorem frame_draws_live_witness:
  "reach (page_init demo_layout False (\<lambda>x. x) 1)
   \<and> svg (frame (page_init demo_layout False (\<lambda>x. x) 1))
     = [connector (container_rect demo_layout) (hd (dot_rects demo_layout)) (hd (content_rects demo_layout))]"
proof -
  have r: "reach (page_init demo_layout False (\<lambda>x. x) 1)" by (rule reach_demo)
  have "scheduled (sch (page_init demo_layout False (\<lambda>x. x) 1))"
    by (simp add: page_init_def)
  then have "svg (frame (page_init demo_layout False (\<lambda>x. x) 1))
      = connector_pass (container_rect demo_layout) (live_geoms (page_init demo_layout False (\<lambda>x. x) 1))"
    using frame_draws_live [OF r] by (simp add: page_init_def)
  then show ?thesis
    using r by (simp add: live_geoms_def page_init_def demo_layout_def card_rt_init_def drag_init_def
        visual_offset_def shift_rect_def)
qed

text \<open>
  C4.  In every reachable state the scheduler is consistent: a connector pass is queued
  for the next frame exactly when \<^verbatim>\<open>rafState.scheduled\<close> is set, and then only one.
\<close>

theorem reach_sched_inv:
  "reach s \<Longrightarrow> raf_queue (sch s) = (if scheduled (sch s) then [ConnectorPass] else [])"
  using reach_page_inv by (simp add: page_inv_def sched_inv_def)

theorem reach_sched_inv_witness:
  "reach (page_init demo_layout False (\<lambda>x. x) 1)
   \<and> raf_queue (sch (page_init demo_layout False (\<lambda>x. x) 1)) = [ConnectorPass]"
  using reach_sched_inv [OF reach_demo] reach_demo by (simp add: page_init_def)

text \<open>
  C12.  With the reduced-motion preference, no sparkle burst ever exists in a reachable
  state (while the reveal class is still applied, as the witness shows).
\<close>

theorem reduced_no_bursts:
  "reach s \<Longrightarrow> prefers_reduced s \<Longrightarrow> bursts s = []"
  using reach_page_inv by (simp add: page_inv_def bursts_ok_def)

lemma reach_step_intersect:
  "reach s \<Longrightarrow> i < length (items s) \<Longrightarrow> reach (on_intersect s i vis rnd)"
  using reach.step [of s "Intersect i vis rnd"] by simp

theorem reduced_no_bursts_witness:
  "reach (on_intersect (page_init demo_layout True (\<lambda>x. x) 1) 0 True (\<lambda>_. 0))
   \<and> prefers_reduced (on_intersect (page_init demo_layout True (\<lambda>x. x) 1) 0 True (\<lambda>_. 0))
   \<and> in_view (items (on_intersect (page_init demo_layout True (\<lambda>x. x) 1) 0 True (\<lambda>_. 0)) ! 0)
   \<and> bursts (on_intersect (page_init demo_layout True (\<lambda>x. x) 1) 0 True (\<lambda>_. 0)) = []"
proof -
  have r: "reach (on_intersect (page_init demo_layout True (\<lambda>x. x) 1) 0 True (\<lambda>_. 0))"
    by (rule reach_step_intersect [OF reach_demo]) (simp add: page_init_def)
  have p: "prefers_reduced (on_intersect (page_init demo_layout True (\<lambda>x. x) 1) 0 True (\<lambda>_. 0))"
    by (simp add: on_intersect_def emit_dot_sparkle_def page_init_def)
  show ?thesis
    using r p reduced_no_bursts [OF r p]
    by (simp add: on_intersect_def emit_dot_sparkle_def page_init_def)
qed

text \<open>
  C13.  Resources are bounded: every sparkle burst alive in a reachable state has its
  removal timer pending, due 1200 ms after the burst was created.
\<close>

theorem bursts_have_cleanup:
  "reach s \<Longrightarrow> b \<in> set (bursts s) \<Longrightarrow>
     \<exists>t \<in> set (timers s). t_cb t = TRemoveBurst (b_id b) \<and> t_due t = b_created b + 1200"
  using reach_page_inv by (auto simp: page_inv_def bursts_ok_def burst_lifetime_def)

theorem bursts_have_cleanup_witness:
  "reach (on_intersect (page_init demo_layout False (\<lambda>x. x) 1) 0 True (\<lambda>_. 0))
   \<and> \<lparr>b_id = 0, b_item = 0, b_created = 0, b_sparks = emit_sparks (\<lambda>_. 0)\<rparr>
       \<in> set (bursts (on_intersect (page_init demo_layout False (\<lambda>x. x) 1) 0 True (\<lambda>_. 0)))
   \<and> (\<exists>t \<in> set (timers (on_intersect (page_init demo_layout False (\<lambda>x. x) 1) 0 True (\<lambda>_. 0))).
        t_cb t = TRemoveBurst 0 \<and> t_due t = 1200)"
proof -
  let ?s = "on_intersect (page_init demo_layout False (\<lambda>x. x) 1) 0 True (\<lambda>_. 0)"
  have r: "reach ?s"
    by (rule reach_step_intersect [OF reach_demo]) (simp add: page_init_def)
  have b: "\<lparr>b_id = 0, b_item = 0, b_created = 0, b_sparks = emit_sparks (\<lambda>_. 0)\<rparr> \<in> set (bursts ?s)"
    by (simp add: on_intersect_def emit_dot_sparkle_def page_init_def)
  show ?thesis using r b bursts_have_cleanup [OF r b] by simp
qed

text \<open>
  C17.  Drags of different cards are independent: a drag event on card \<open>i\<close> leaves the
  runtime state of every other card unchanged.
\<close>

theorem drag_independent:
  assumes "step s (DragStart i) = Some s' \<or> step s (DragMove i dx dy) = Some s' \<or> step s (DragEnd i) = Some s'"
    and "j \<noteq> i"
  shows "length (items s') = length (items s) \<and> items s' ! j = items s ! j"
  using assms by (auto simp: items_update_drag drag_guard_def split: if_splits)

theorem drag_independent_witness:
  "step (page_init demo_layout False (\<lambda>x. x) 2) (DragStart 0) = Some (update_drag (page_init demo_layout False (\<lambda>x. x) 2) 0 drag_start)
   \<and> (1::nat) \<noteq> 0
   \<and> items (update_drag (page_init demo_layout False (\<lambda>x. x) 2) 0 drag_start) ! 1 = card_rt_init"
proof -
  have h: "step (page_init demo_layout False (\<lambda>x. x) 2) (DragStart 0) = Some (update_drag (page_init demo_layout False (\<lambda>x. x) 2) 0 drag_start)"
    by (simp add: page_init_def card_rt_init_def drag_init_def)
  show ?thesis
    using drag_independent [of "page_init demo_layout False (\<lambda>x. x) 2" 0 _ 0 0 1] h
    by (simp add: page_init_def)
qed


lemma on_resize_fields:
  "timers (on_resize s) = [t \<leftarrow> timers s. Some (t_id t) \<noteq> resize_timer s]
       @ [\<lparr>t_id = next_timer s, t_due = now s + resize_delay, t_cb = TDraw\<rparr>]
   \<and> resize_timer (on_resize s) = Some (next_timer s)
   \<and> next_timer (on_resize s) = Suc (next_timer s) \<and> now (on_resize s) = now s"
  by (cases "resize_timer s") (simp_all add: on_resize_eq Let_def clear_timeout_eq)

lemma step_now:
  "step s e = Some s' \<Longrightarrow> now s' = (case e of Tick n \<Rightarrow> now s + n | _ \<Rightarrow> now s)"
  by (cases e) (auto simp: fire_timer_def request_redraw_def on_resize_fields on_intersect_def
      emit_dot_sparkle_def Let_def update_drag_def split: option.splits if_splits)

text \<open>
  C21.  Refinement of the specification's phase machine (section 4.4): every event of the
  page moves the phase of every card, read off the concrete state by \<open>drag_phase\<close>,
  along a transition of \<open>spec_drag_step\<close> (possibly stuttering), with one exception,
  the divergence of C22: a \<open>start\<close> on a card whose snap-back is still running
  jumps from \<open>SnappingBack\<close> to \<open>Dragging\<close>.
\<close>

theorem drag_phase_simulation:
  assumes "step s e = Some s'" and "i < length (items s)"
  shows "spec_drag_step (drag_phase (now s) (drag (items s ! i))) (drag_phase (now s') (drag (items s' ! i)))
       \<or> (e = DragStart i \<and> drag_phase (now s) (drag (items s ! i)) = SnappingBack
          \<and> drag_phase (now s') (drag (items s' ! i)) = Dragging)"
proof -
  have t: "now s' = (case e of Tick n \<Rightarrow> now s + n | _ \<Rightarrow> now s)"
    using step_now [OF assms(1)] .
  show ?thesis
  proof (cases e)
    case (Tick n)
    then have "s' = s\<lparr>now := now s + n\<rparr>" using assms by simp
    then show ?thesis by (simp add: drag_phase_later)
  next
    case (DragStart j)
    show ?thesis
    proof (cases "i = j")
      case True
      then have "\<not> dragging (drag (items s ! i))" "drag (items s' ! i) = drag_start (drag (items s ! i))"
        using assms DragStart by (auto simp: items_update_drag split: if_splits)
      then show ?thesis using t DragStart True
        by (auto simp: drag_phase_def spec_drag_step_simps)
    qed (use assms DragStart t in \<open>auto simp: items_update_drag spec_drag_step.stay split: if_splits\<close>)
  next
    case (DragMove j dx dy)
    then show ?thesis using assms t
      by (cases "i = j") (auto simp: items_update_drag drag_guard_def drag_phase_move drag_phase_dragging spec_drag_step.stay split: if_splits)
  next
    case (DragEnd j)
    then show ?thesis using assms t
      by (cases "i = j") (auto simp: items_update_drag drag_guard_def drag_phase_dragging spec_drag_step.stay spec_drag_step.release split: if_splits)
  next
    case (Intersect j vis rnd)
    then show ?thesis using assms t
      by (cases "i = j") (auto simp: on_intersect_def spec_drag_step.stay nth_list_update split: if_splits)
  next
    case (Fire h)
    then show ?thesis using assms t items_fire_timer [of s h s'] by (simp add: spec_drag_step.stay)
  qed (use assms t in \<open>auto simp: spec_drag_step.stay split: if_splits\<close>)
qed

theorem drag_phase_simulation_witness:
  "step (page_init demo_layout False (\<lambda>x. x) 1) (DragStart 0)
     = Some (update_drag (page_init demo_layout False (\<lambda>x. x) 1) 0 drag_start)
   \<and> spec_drag_step Idle Dragging
   \<and> drag_phase 0 (drag (items (page_init demo_layout False (\<lambda>x. x) 1) ! 0)) = Idle
   \<and> drag_phase 0 (drag (items (update_drag (page_init demo_layout False (\<lambda>x. x) 1) 0 drag_start) ! 0)) = Dragging"
proof -
  let ?s = "page_init demo_layout False (\<lambda>x. x) 1"
  have h: "step ?s (DragStart 0) = Some (update_drag ?s 0 drag_start)"
    by (simp add: page_init_def card_rt_init_def drag_init_def)
  have l: "0 < length (items ?s)" by (simp add: page_init_def)
  have p: "drag_phase 0 (drag (items ?s ! 0)) = Idle"
    by (simp add: page_init_def card_rt_init_def drag_init_def drag_phase_def anim_active_def)
  have q: "drag_phase 0 (drag (items (update_drag ?s 0 drag_start) ! 0)) = Dragging"
    using l by (simp add: items_update_drag)
  show ?thesis
    using drag_phase_simulation [OF h l] h p q by (simp add: update_drag_def page_init_def)
qed

lemma resize_run:
  assumes "page_inv s" and "layout_fits l (length (items s))"
  shows "\<exists>s'. run s (replicate (Suc k) (Resize l)) = Some s'
     \<and> timers s' = [t \<leftarrow> timers s. Some (t_id t) \<noteq> resize_timer s]
          @ [\<lparr>t_id = next_timer s + k, t_due = now s + resize_delay, t_cb = TDraw\<rparr>]
     \<and> resize_timer s' = Some (next_timer s + k)"
  using assms
proof (induction k arbitrary: s)
  case 0
  then show ?case using on_resize_fields [of "s\<lparr>lay := l\<rparr>"] by simp
next
  case (Suc k)
  let ?s1 = "on_resize (s\<lparr>lay := l\<rparr>)"
  have step1: "step s (Resize l) = Some ?s1" using Suc.prems(2) by simp
  have inv1: "page_inv ?s1" using page_inv_step [OF Suc.prems(1) step1] .
  have fits1: "layout_fits l (length (items ?s1))" using Suc.prems(2) by simp
  obtain s' where run': "run ?s1 (replicate (Suc k) (Resize l)) = Some s'"
    and tm: "timers s' = [t \<leftarrow> timers ?s1. Some (t_id t) \<noteq> resize_timer ?s1]
          @ [\<lparr>t_id = next_timer ?s1 + k, t_due = now ?s1 + resize_delay, t_cb = TDraw\<rparr>]"
    and rt: "resize_timer s' = Some (next_timer ?s1 + k)"
    using Suc.IH [OF inv1 fits1] by blast
  have old: "\<forall>t \<in> set (timers s). t_id t < next_timer s"
    using Suc.prems(1) by (simp add: page_inv_def timers_ok_def)
  have f1: "on_resize (s\<lparr>lay := l\<rparr>) = ?s1" ..
  have "[t \<leftarrow> timers ?s1. Some (t_id t) \<noteq> resize_timer ?s1]
      = [t \<leftarrow> timers s. Some (t_id t) \<noteq> resize_timer s]"
  proof -
    have "[t \<leftarrow> timers s. Some (t_id t) \<noteq> resize_timer s \<and> t_id t \<noteq> next_timer s]
        = [t \<leftarrow> timers s. Some (t_id t) \<noteq> resize_timer s]"
      using old by (intro filter_cong) auto
    then show ?thesis using on_resize_fields [of "s\<lparr>lay := l\<rparr>"] by simp
  qed
  then show ?case
    using run' tm rt step1 on_resize_fields [of "s\<lparr>lay := l\<rparr>"] by simp
qed

text \<open>
  C15.  Resize debouncing: any burst of \<open>k + 1\<close> resize events at the same time leaves
  exactly one pending redraw timer from them, due 120 ms later, named by
  \<^verbatim>\<open>resizeTimer\<close>; the earlier debounce timer is cancelled and no other timer is
  touched.
\<close>

theorem resize_debounce:
  assumes "reach s" and "layout_fits l (length (items s))"
  shows "\<exists>s'. run s (replicate (Suc k) (Resize l)) = Some s'
     \<and> timers s' = [t \<leftarrow> timers s. Some (t_id t) \<noteq> resize_timer s]
          @ [\<lparr>t_id = next_timer s + k, t_due = now s + 120, t_cb = TDraw\<rparr>]
     \<and> resize_timer s' = Some (next_timer s + k)"
  using resize_run [OF reach_page_inv [OF assms(1)] assms(2)] by (simp add: resize_delay_def)

theorem resize_debounce_witness:
  "reach (page_init demo_layout False (\<lambda>x. x) 1) \<and> layout_fits demo_layout 1
   \<and> (\<exists>s'. run (page_init demo_layout False (\<lambda>x. x) 1) (replicate 3 (Resize demo_layout)) = Some s'
        \<and> timers s' = [\<lparr>t_id = 3, t_due = 120, t_cb = TDraw\<rparr>] \<and> resize_timer s' = Some 3)"
proof -
  have f: "layout_fits demo_layout (length (items (page_init demo_layout False (\<lambda>x. x) 1)))"
    by (simp add: layout_fits_def demo_layout_def page_init_def)
  show ?thesis
    using resize_debounce [OF reach_demo f, of 2] reach_demo f
    by (simp add: page_init_def numeral_eq_Suc)
qed

subsection \<open>Runs\<close>

lemma run_append: "run s (xs @ ys) = (case run s xs of None \<Rightarrow> None | Some s' \<Rightarrow> run s' ys)"
  by (induction xs arbitrary: s) (auto split: option.splits)

lemma connector_pass_live:
  assumes "layout_fits (lay s) (length (items s))"
  shows "connector_pass (container_rect (lay s)) (live_geoms s) =
    map (\<lambda>i. connector (container_rect (lay s)) (dot_rects (lay s) ! i)
                (shift_rect (content_rects (lay s) ! i) (visual_offset (ease s) (now s) (drag (items s ! i)))))
        [0..<length (items s)]"
proof -
  have "live_geoms s = map (\<lambda>i. (Some (dot_rects (lay s) ! i),
          Some (shift_rect (content_rects (lay s) ! i) (visual_offset (ease s) (now s) (drag (items s ! i))))))
        [0..<length (items s)]"
    using assms by (intro nth_equalityI) (auto simp: live_geoms_def layout_fits_def)
  then show ?thesis by (simp add: connector_pass_all_some)
qed

lemma scrolls_run:
  assumes "reach s"
  shows "\<exists>s'. run s (replicate k (Scroll dy)) = Some s' \<and> reach s' \<and> passes s' = passes s
     \<and> (0 < k \<longrightarrow> scheduled (sch s'))"
  using assms
proof (induction k arbitrary: s)
  case 0
  then show ?case by simp
next
  case (Suc k)
  let ?s1 = "request_redraw (s\<lparr>lay := shift_layout (lay s) (0, - dy)\<rparr>)"
  have st: "step s (Scroll dy) = Some ?s1" by simp
  have r1: "reach ?s1" using reach.step [OF Suc.prems st] .
  obtain s' where "run ?s1 (replicate k (Scroll dy)) = Some s'" "reach s'" "passes s' = passes ?s1"
    "0 < k \<longrightarrow> scheduled (sch s')"
    using Suc.IH [OF r1] by blast
  moreover have "k = 0 \<longrightarrow> s' = ?s1" using calculation(1) by auto
  ultimately show ?case
    by (auto simp: request_redraw_def)
qed

lemma frame_clears_sched:
  "page_inv s \<Longrightarrow> \<not> scheduled (sch (frame s)) \<and> raf_queue (sch (frame s)) = []"
  by (auto simp: page_inv_def frame_eq connector_frame_def sched_inv_def)

lemma passes_frame: "page_inv s \<Longrightarrow> passes (frame s) = (if scheduled (sch s) then Suc (passes s) else passes s)"
  by (simp add: page_inv_def frame_eq connector_frame_def)

subsection \<open>Frames, scrolling and mounting\<close>

lemma live_geoms_request_redraw [simp]: "live_geoms (request_redraw s) = live_geoms s"
  by (simp add: request_redraw_def)

lemma live_geoms_frame [simp]: "live_geoms (frame s) = live_geoms s"
  by (simp add: live_geoms_def)

lemma frame_scheduled_svg:
  "page_inv s \<Longrightarrow> scheduled (sch s) \<Longrightarrow> svg (frame s) = connector_pass (container_rect (lay s)) (live_geoms s)"
  by (simp add: page_inv_def frame_eq connector_frame_def)

lemma live_geoms_shift:
  "live_geoms (s\<lparr>lay := shift_layout (lay s) v\<rparr>)
   = map (\<lambda>(d, c). (map_option (\<lambda>r. shift_rect r v) d, map_option (\<lambda>r. shift_rect r v) c)) (live_geoms s)"
proof -
  have sh: "shift_rect (shift_rect c v) w = shift_rect (shift_rect c w) v" for c w
    by (simp add: shift_rect_def)
  show ?thesis
    by (simp add: live_geoms_def shift_layout_def zip_map1 zip_map2 comp_def case_prod_beta sh)
qed

text \<open>
  C23.  Mounting: without the \<^verbatim>\<open>#credentials-root\<close> element the handler does
  nothing; with it, the DOM is rendered and the page starts in a reachable state with
  one runtime entry per card and the initial redraw pending.
\<close>

theorem mount_page:
  "dom_content_loaded None sec l red e = None
   \<and> (layout_fits l (length (cards sec)) \<longrightarrow>
       (\<exists>p. dom_content_loaded (Some root_el) sec l red e = Some (render_timeline root_el sec, p)
            \<and> reach p \<and> length (items p) = length (cards sec) \<and> scheduled (sch p)))"
proof -
  have "layout_fits l (length (cards sec)) \<Longrightarrow> reach (page_init l red e (length (cards sec)))"
    by (rule reach.init)
  then show ?thesis
    by (auto simp: dom_content_loaded_def mount_def page_init_def)
qed

theorem mount_page_witness:
  "dom_content_loaded None abc_section abc_layout False (\<lambda>x. x) = None
   \<and> layout_fits abc_layout (length (cards abc_section))
   \<and> (\<exists>p. dom_content_loaded (Some (Elem ''section'' [(''id'', ''credentials-root'')] [])) abc_section abc_layout False (\<lambda>x. x)
          = Some (render_timeline (Elem ''section'' [(''id'', ''credentials-root'')] []) abc_section, p)
        \<and> reach p \<and> length (items p) = 3 \<and> scheduled (sch p))"
proof -
  have f: "layout_fits abc_layout (length (cards abc_section))"
    by (simp add: layout_fits_def abc_layout_def abc_section_def)
  moreover have c: "length (cards abc_section) = 3"
    by (simp add: abc_section_def)
  ultimately show ?thesis
    using mount_page [of abc_section abc_layout False "\<lambda>x. x" "Elem ''section'' [(''id'', ''credentials-root'')] []"]
    by simp
qed

text \<open>
  C25.  \<^verbatim>\<open>style.willChange\<close> is sticky: once a drag has started on a card, no event
  ever clears the compositor hint again (the code never resets it).
\<close>

theorem will_change_sticky:
  assumes "step s e = Some s'" and "i < length (items s)" and "will_change (drag (items s ! i))"
  shows "will_change (drag (items s' ! i))"
  using assms
proof (cases e)
  case (Fire h)
  then show ?thesis using assms items_fire_timer by auto
next
  case (DragStart j)
  then show ?thesis using assms by (cases "i = j") (auto simp: items_update_drag split: if_splits)
next
  case (DragMove j dx dy)
  then show ?thesis using assms
    by (cases "i = j") (auto simp: items_update_drag drag_move_def Let_def split: if_splits)
next
  case (DragEnd j)
  then show ?thesis using assms by (cases "i = j") (auto simp: items_update_drag split: if_splits)
next
  case (Intersect j vis rnd)
  then show ?thesis using assms by (cases "i = j") (auto simp: items_on_intersect split: if_splits)
qed (auto split: if_splits)

theorem will_change_sticky_witness:
  "step (update_drag (page_init demo_layout False (\<lambda>x. x) 1) 0 drag_start) (Scroll 0)
     = Some (request_redraw ((update_drag (page_init demo_layout False (\<lambda>x. x) 1) 0 drag_start)
         \<lparr>lay := shift_layout demo_layout (0, - 0)\<rparr>))
   \<and> will_change (drag (items (request_redraw ((update_drag (page_init demo_layout False (\<lambda>x. x) 1) 0 drag_start)
         \<lparr>lay := shift_layout demo_layout (0, - 0)\<rparr>)) ! 0))"
proof -
  let ?s = "update_drag (page_init demo_layout False (\<lambda>x. x) 1) 0 drag_start"
  let ?s' = "request_redraw (?s\<lparr>lay := shift_layout demo_layout (0, - 0)\<rparr>)"
  have st: "step ?s (Scroll 0) = Some ?s'"
    by (simp add: update_drag_def page_init_def)
  have i: "0 < length (items ?s)" "will_change (drag (items ?s ! 0))"
    by (simp_all add: update_drag_def page_init_def)
  show ?thesis using will_change_sticky [OF st i] st by simp
qed

end
