(* ===== verification/Spec2Isabelle.thy ===== *)
theory Spec2Isabelle
  imports Page
begin

text \<open>
  \<^bold>\<open>Verification of the credentials timeline\<close> (\<^verbatim>\<open>src/credentials.js\<close>,
  \<^verbatim>\<open>src/timeline.js\<close>).

  \<^bold>\<open>The program.\<close>  On \<^verbatim>\<open>DOMContentLoaded\<close> the script looks up
  \<^verbatim>\<open>#credentials-root\<close> and, if it exists, \<^verbatim>\<open>renderTimeline\<close> builds a rope, an
  SVG surface and one list item per card of \<^verbatim>\<open>CREDENTIALS_SECTION\<close>.  It then wires
  four producers of work: the window's scroll and (debounced) resize listeners, an
  \<^verbatim>\<open>IntersectionObserver\<close> that reveals items and fires a sparkle burst
  (\<^verbatim>\<open>emitDotSparkle\<close>), and interact.js drag listeners on the content boxes
  (\<^verbatim>\<open>enableCardDrag\<close>) whose release starts an anime.js snap-back.  Scroll, drag moves
  and timers call \<^verbatim>\<open>drawConnectors\<close>, which coalesces requests with the flag
  \<^verbatim>\<open>rafState.scheduled\<close> into one \<^verbatim>\<open>requestAnimationFrame\<close> callback; that callback
  rebuilds every connector path from the live bounding boxes.

  \<^bold>\<open>Theories.\<close>
  \<^item> \<open>Prelude\<close>: numbers as \<^typ>\<open>real\<close> (IEEE rounding is not modelled), times as
    milliseconds in \<^typ>\<open>nat\<close>, \<open>hypot\<close> for \<^verbatim>\<open>Math.hypot\<close>, shared list lemmas.
  \<^item> \<open>Geometry\<close>: DOMRect as a record, \<open>connector\<close> (one item of the pass,
    lines 53--80) and \<open>connector_pass\<close> (lines 48--81).  Claims C1, C2, C19, C20.
  \<^item> \<open>Scheduler\<close>: \<open>draw_connectors\<close> over the flag and the browser's rAF queue
    (lines 42--47).  Claim C3.
  \<^item> \<open>Drag\<close>: the per-card state of \<open>enableCardDrag\<close> and its three listeners
    (lines 136--168); the animation library enters as a parameter \<open>ease\<close> and the rule
    that a running animation owns the transform until its 900 ms are over.  The phase
    abstraction \<open>drag_phase\<close> maps the code onto the specification's
    \<open>Idle/Dragging/SnappingBack\<close> machine \<open>spec_drag_step\<close>; the refinement
    itself is proved over page events in \<open>Page\<close> (C21).  Claims C7, C8, C22.
  \<^item> \<open>Sparkle\<close>: \<open>emitDotSparkle\<close>'s sparks from the sequence of
    \<^verbatim>\<open>Math.random()\<close> values (lines 111--134).  Claim C14.
  \<^item> \<open>Render\<close>: the dataset, \<open>createEl\<close>, the DOM tree of \<open>renderTimeline\<close> and
    \<open>mount\<close>; nodes keep \<^verbatim>\<open>innerHTML\<close> strings unparsed, strings are UTF-8 bytes.
    Claim C16.
  \<^item> \<open>Page\<close>: the composition.  The page record holds the clock, the layout the browser
    reports, the scheduler, the SVG children, per card its reveal class and drag state, the
    pending timers with their handles, \<^verbatim>\<open>resizeTimer\<close>, the live bursts and the
    configuration read once (\<^verbatim>\<open>PREFERS_REDUCED\<close>).  \<open>step\<close> has one case per browser
    event (scroll, resize, frame, clock tick, timer firing, drag start/move/end,
    intersection entry) and returns \<open>None\<close> for an event the browser cannot deliver.
    \<open>reach\<close> is the set of states reachable from \<open>page_init\<close>; \<open>page_inv\<close> (scheduler
    consistency, layout sizes, fresh distinct timer handles, a pending removal timer for
    every burst, no burst under reduced motion) holds in all of them (\<open>reach_page_inv\<close>,
    proved one handler at a time).  \<open>drag_phase_simulation\<close> (C21) shows that every
    event moves each card's phase along \<open>spec_drag_step\<close>, with the single exception
    of C22.  Claims C4, C6, C10, C12, C13, C15, C17, C21, C23, C25.
  \<^item> This theory: the properties that span components, C5 (page-level coalescing), C9
    (a released card's connector is redrawn settled, for every wait after which the
    post-snap timer can fire), C11 (re-entering the viewport re-fires the sparkle), C18
    (scrolling leaves the connectors unchanged), C24 (every rendered item has the
    elements the pass needs, so each gets a connector) and C26 (a redraw right after a
    release draws the card where it is shown).

  \<^bold>\<open>Bounds and time.\<close>  There is no loop that may diverge: every handler is a total
  function, runs are finite event lists, and repeated events are \<open>replicate\<close>d.  The
  constants are the source's: \<open>R = 120\<close>, the 900 ms animation, the 920 ms post-snap
  timer, the 120 ms debounce, the 1200 ms burst lifetime, 8 sparks.  Timers fire in any
  order once due (\<open>Fire\<close>), which over-approximates the browser's order; safety
  properties hold for every order, and C9 quantifies over every wait before the
  firing it relies on, so it holds because the 920 ms timer outlasts the 900 ms animation.

  \<^bold>\<open>Not modelled.\<close>  CSS, the path's \<open>d\<close> string formatting and stroke attributes,
  the visual easing curve (a parameter), parsing of \<^verbatim>\<open>innerHTML\<close>, the
  IntersectionObserver's 12 percent threshold (an entry's \<open>isIntersecting\<close> is the event's
  flag), interact.js and anime.js beyond the contracts above.  Scrolling is vertical only
  (\<open>Scroll dy\<close> moves every box by \<open>(0, -dy)\<close>); a horizontal scroll would move them
  the same way and is left out.  The snap-back is assumed to start from the offset the
  card shows (\<open>visual_offset\<close>); the code writes \<^verbatim>\<open>translate(x, y)\<close> (line 154)
  and animates anime.js's \<^verbatim>\<open>translateX/translateY\<close> (line 160), whose start value
  depends on the library's parsing of the inline transform.  Painting is not modelled:
  the SVG surface is an HTML-namespace element (line 18), so the paths the model
  computes are probably never shown.

  \<^bold>\<open>Plan.\<close>  Modelled first, because it is where the program is hard: the geometry
  engine and the scheduler, then the drag controller with the snap-back, the reveal and
  emitter, rendering and mounting, and their composition on the page.  Still to come:
  the browser's timer order (due time, then handle) as a refinement of \<open>Fire\<close>, with a
  liveness theorem that a resize burst is always followed by a redraw; the directions of
  the eight sparks as pairwise distinct points of the unit circle; the observer's 12
  percent threshold computed from the layout; the \<open>d\<close> attribute as a string; and a
  theorem for the unescaped \<^verbatim>\<open>innerHTML\<close> of headings.

  \<^bold>\<open>Findings.\<close>  C11: the sparkle fires on every entry into the viewport, not once.
  C20: left-side connectors first bend away from their card (the absolute value in
  \<open>dx\<close>).  C22: a drag started during a snap-back is not shown until the animation ends,
  the one step outside the specification's phase machine (C21).  C14: the radius jitter
  is one-sided, \<open>[18, 26)\<close>.  C25: \<^verbatim>\<open>willChange\<close> is never reset.  C26: the
  logical reset on release does not reach the geometry, which follows the animated box
  until the 920 ms redraw.  Without a theorem: the SVG surface is created with
  \<^verbatim>\<open>createElement\<close> instead of \<^verbatim>\<open>createElementNS\<close> (line 18), and card
  texts go into \<^verbatim>\<open>innerHTML\<close> unescaped (line 33).
\<close>

text \<open>
  C5.  Coalescing on the page: from any reachable state, any number \<open>k \<ge> 1\<close> of scroll
  events followed by a frame run exactly one geometry pass, and leave no pass pending.
\<close>

theorem coalesced_frame_one_pass:
  assumes "reach s" and "1 \<le> k"
  shows "\<exists>s'. run s (replicate k (Scroll dy) @ [Frame]) = Some s'
     \<and> passes s' = Suc (passes s) \<and> \<not> scheduled (sch s') \<and> raf_queue (sch s') = []"
proof -
  obtain s1 where s1: "run s (replicate k (Scroll dy)) = Some s1" "reach s1" "passes s1 = passes s"
    "scheduled (sch s1)"
    using scrolls_run [OF assms(1), of k dy] assms(2) by auto
  have "passes (frame s1) = Suc (passes s)"
    using passes_frame [OF reach_page_inv [OF s1(2)]] s1 by simp
  moreover have "\<not> scheduled (sch (frame s1)) \<and> raf_queue (sch (frame s1)) = []"
    using frame_clears_sched [OF reach_page_inv [OF s1(2)]] by simp
  ultimately show ?thesis
    using s1(1) by (simp add: run_append)
qed

text \<open>
  C9.  Releasing a card always ends with its connector drawn to the settled card: after
  the \<open>end\<close> listener, the post-snap timer can fire after a wait of 920 ms, and
  whatever the wait after which it fires, its redraw and the next frame draw the card's
  connector from its untransformed content box.  The timer therefore never fires while
  the 900 ms snap-back is still moving the card.
\<close>

theorem snap_back_settles:
  assumes "reach s" and "i < length (items s)" and "dragging (drag (items s ! i))"
  shows "(\<exists>s'. run s [DragEnd i, Tick 920, Fire (next_timer s), Frame] = Some s')
     \<and> (\<forall>w s'. run s [DragEnd i, Tick w, Fire (next_timer s), Frame] = Some s' \<longrightarrow>
          length (svg s') = length (items s)
          \<and> svg s' ! i = connector (container_rect (lay s)) (dot_rects (lay s) ! i) (content_rects (lay s) ! i))"
proof -
  have inv: "page_inv s" using reach_page_inv [OF assms(1)] .
  let ?s0 = "update_drag s i (drag_end (ease s) (now s))"
  let ?s1 = "snd (set_timeout ?s0 snap_redraw_delay TDraw)"
  define s3 where "s3 w = request_redraw ((?s1\<lparr>now := now ?s1 + w\<rparr>)\<lparr>timers := [u \<leftarrow> timers ?s1. t_id u \<noteq> next_timer s]\<rparr>)" for w
  have e1: "step s (DragEnd i) = Some ?s1"
    using assms(2,3) by (simp add: drag_guard_def)
  have old: "\<forall>y \<in> set (timers s). t_id y \<noteq> next_timer s"
    using inv by (auto simp: page_inv_def timers_ok_def)
  have fire: "fire_timer (?s1\<lparr>now := now ?s1 + w\<rparr>) (next_timer s) = (if 920 \<le> w then Some (s3 w) else None)" for w
    using old by (simp add: fire_timer_def find_append_fresh update_drag_def snap_redraw_delay_def s3_def)
  have runw: "run s [DragEnd i, Tick w, Fire (next_timer s), Frame] = (if 920 \<le> w then Some (frame (s3 w)) else None)" for w
    using e1 fire [of w] by simp
  have settled: "length (svg (frame (s3 w))) = length (items s)
      \<and> svg (frame (s3 w)) ! i = connector (container_rect (lay s)) (dot_rects (lay s) ! i) (content_rects (lay s) ! i)"
    if w: "920 \<le> w" for w
  proof -
    have i1: "page_inv ?s1" using page_inv_step [OF inv e1] .
    have e2: "step ?s1 (Tick w) = Some (?s1\<lparr>now := now ?s1 + w\<rparr>)" by simp
    have i2: "page_inv (?s1\<lparr>now := now ?s1 + w\<rparr>)" using page_inv_step [OF i1 e2] .
    have e3: "step (?s1\<lparr>now := now ?s1 + w\<rparr>) (Fire (next_timer s)) = Some (s3 w)" using fire [of w] w by simp
    have inv3: "page_inv (s3 w)" using page_inv_step [OF i2 e3] .
    have sc3: "scheduled (sch (s3 w))" by (simp add: s3_def request_redraw_def)
    have fits: "layout_fits (lay (s3 w)) (length (items (s3 w)))" using inv3 by (simp add: page_inv_def)
    have len: "length (items (s3 w)) = length (items s)" by (simp add: s3_def update_drag_def)
    have lay3: "lay (s3 w) = lay s" by (simp add: s3_def update_drag_def request_redraw_def)
    have vis: "visual_offset (ease (s3 w)) (now (s3 w)) (drag (items (s3 w) ! i)) = (0, 0)"
      using assms(2) w by (simp add: s3_def update_drag_def request_redraw_def visual_offset_def snap_duration_def)
    have "svg (frame (s3 w)) = connector_pass (container_rect (lay (s3 w))) (live_geoms (s3 w))"
      using inv3 sc3 by (simp add: frame_eq connector_frame_def page_inv_def)
    also have "\<dots> = map (\<lambda>j. connector (container_rect (lay (s3 w))) (dot_rects (lay (s3 w)) ! j)
                  (shift_rect (content_rects (lay (s3 w)) ! j) (visual_offset (ease (s3 w)) (now (s3 w)) (drag (items (s3 w) ! j)))))
          [0..<length (items (s3 w))]"
      using fits by (rule connector_pass_live)
    finally have sv: "svg (frame (s3 w)) = \<dots>" .
    show ?thesis using sv vis len lay3 assms(2) by simp
  qed
  show ?thesis
    using runw settled by auto
qed

text \<open>
  C11.  The reveal is not one-shot for the particle effect: an item that becomes
  visible, invisible and visible again keeps its \<^verbatim>\<open>in-view\<close> class but gets two
  sparkle bursts, one per entry into the viewport (the specification asks for one).
\<close>

theorem reveal_retriggers_sparkle:
  assumes "reach s" and "\<not> prefers_reduced s" and "i < length (items s)"
  shows "\<exists>s'. run s [Intersect i True rnd_a, Intersect i False rnd_b, Intersect i True rnd_c] = Some s'
     \<and> in_view (items s' ! i)
     \<and> next_burst s' = next_burst s + 2 \<and> length (bursts s') = length (bursts s) + 2"
  using assms by (simp add: on_intersect_def emit_dot_sparkle_def Let_def set_timeout_def)

theorem coalesced_frame_one_pass_witness:
  "\<exists>s'. run (page_init demo_layout False (\<lambda>x. x) 1) (replicate 3 (Scroll 10) @ [Frame]) = Some s'
     \<and> passes s' = 1 \<and> \<not> scheduled (sch s') \<and> raf_queue (sch s') = []"
  using coalesced_frame_one_pass [OF reach_demo [of False "\<lambda>x. x"], where k = 3 and dy = 10] by (simp add: page_init_def del: run.simps)

theorem snap_back_settles_witness:
  "\<exists>s'. run (update_drag (page_init demo_layout False (\<lambda>x. x) 1) 0 drag_start)
          [DragEnd 0, Tick 920, Fire 1, Frame] = Some s'
     \<and> length (svg s') = 1
     \<and> svg s' ! 0 = connector (container_rect demo_layout) (hd (dot_rects demo_layout)) (hd (content_rects demo_layout))"
proof -
  let ?s = "update_drag (page_init demo_layout False (\<lambda>x. x) 1) 0 drag_start"
  have "step (page_init demo_layout False (\<lambda>x. x) 1) (DragStart 0) = Some ?s"
    by (simp add: page_init_def card_rt_init_def drag_init_def)
  then have r: "reach ?s" by (rule reach.step [OF reach_demo])
  have "0 < length (items ?s)" "dragging (drag (items ?s ! 0))"
    by (simp_all add: update_drag_def page_init_def)
  then have c: "(\<exists>s'. run ?s [DragEnd 0, Tick 920, Fire 1, Frame] = Some s')
     \<and> (\<forall>w s'. run ?s [DragEnd 0, Tick w, Fire 1, Frame] = Some s' \<longrightarrow>
          length (svg s') = length (items ?s)
          \<and> svg s' ! 0 = connector (container_rect (lay ?s)) (dot_rects (lay ?s) ! 0) (content_rects (lay ?s) ! 0))"
    using snap_back_settles [OF r] by (simp add: update_drag_def page_init_def)
  then obtain s' where s': "run ?s [DragEnd 0, Tick 920, Fire 1, Frame] = Some s'" by blast
  have "length (svg s') = length (items ?s)
      \<and> svg s' ! 0 = connector (container_rect (lay ?s)) (dot_rects (lay ?s) ! 0) (content_rects (lay ?s) ! 0)"
    using c s' by blast
  then show ?thesis
    using s' by (simp add: update_drag_def page_init_def demo_layout_def del: run.simps)
qed

theorem reveal_retriggers_sparkle_witness:
  "\<exists>s'. run (page_init demo_layout False (\<lambda>x. x) 1)
          [Intersect 0 True (\<lambda>_. 0), Intersect 0 False (\<lambda>_. 0), Intersect 0 True (\<lambda>_. 1/2)] = Some s'
     \<and> in_view (items s' ! 0) \<and> next_burst s' = 2 \<and> length (bursts s') = 2"
  using reveal_retriggers_sparkle [OF reach_demo [of False "\<lambda>x. x"], where i = 0 and rnd_a = "\<lambda>_. 0" and rnd_b = "\<lambda>_. 0" and rnd_c = "\<lambda>_. 1/2"]
  by (simp add: page_init_def numeral_2_eq_2 del: run.simps)

text \<open>
  C18.  Scrolling alone never changes the drawn connectors: a frame after a scroll
  event draws exactly what a frame after any other redraw request would, because every
  box moves by the scroll vector and the pass works in container coordinates.
\<close>

theorem scroll_keeps_connectors:
  assumes "reach s"
  shows "\<exists>s1. step s (Scroll dy) = Some s1 \<and> svg (frame s1) = svg (frame (request_redraw s))"
proof -
  let ?s1 = "request_redraw (s\<lparr>lay := shift_layout (lay s) (0, - dy)\<rparr>)"
  have st: "step s (Scroll dy) = Some ?s1" by simp
  have i: "page_inv s" using reach_page_inv [OF assms] .
  have i1: "page_inv ?s1" using page_inv_step [OF i st] .
  have ir: "page_inv (request_redraw s)" using page_inv_request_redraw [OF i] .
  have "svg (frame ?s1) = connector_pass (shift_rect (container_rect (lay s)) (0, - dy))
         (live_geoms (s\<lparr>lay := shift_layout (lay s) (0, - dy)\<rparr>))"
    using frame_scheduled_svg [OF i1] by (simp add: request_redraw_def shift_layout_def)
  also have "\<dots> = connector_pass (container_rect (lay s)) (live_geoms s)"
    by (simp only: live_geoms_shift connector_pass_translate)
  also have "\<dots> = svg (frame (request_redraw s))"
    using frame_scheduled_svg [OF ir] by (simp add: request_redraw_def)
  finally show ?thesis using st by blast
qed

text \<open>
  C24.  Rendering and the geometry pass agree: every rendered list item has a marker and
  a content element for the pass's \<^verbatim>\<open>querySelector\<close>, and the first frame after
  mounting draws exactly one connector per rendered item.
\<close>

theorem rendered_cards_connected:
  assumes "layout_fits l (length (cards sec))"
    and "dom_content_loaded (Some (Elem t a cs)) sec l red e = Some (tree, p)"
  shows "length (timeline_items tree) = length (cards sec)
     \<and> (\<forall>li \<in> set (timeline_items tree).
          query_selector ''timeline-dot'' li \<noteq> None \<and> query_selector ''timeline-content'' li \<noteq> None)
     \<and> length (svg (frame p)) = length (timeline_items tree)"
proof -
  have tree: "tree = render_timeline (Elem t a cs) sec" and p: "p = page_init l red e (length (cards sec))"
    using assms(2) by (auto simp: dom_content_loaded_def mount_def)
  have items: "timeline_items tree = map render_card (cards sec)"
    by (simp add: tree render_timeline_eq timeline_items_def)
  have r: "reach p" using reach.init [OF assms(1)] p by simp
  have i: "page_inv p" using reach_page_inv [OF r] .
  have sc: "scheduled (sch p)" by (simp add: p page_init_def)
  have "svg (frame p) = connector_pass (container_rect (lay p)) (live_geoms p)"
    using frame_scheduled_svg [OF i sc] .
  also have "\<dots> = map (\<lambda>j. connector (container_rect (lay p)) (dot_rects (lay p) ! j)
                (shift_rect (content_rects (lay p) ! j) (visual_offset (ease p) (now p) (drag (items p ! j)))))
        [0..<length (items p)]"
    using i by (intro connector_pass_live) (simp add: page_inv_def)
  finally have "length (svg (frame p)) = length (cards sec)" by (simp add: p page_init_def)
  moreover have "\<forall>li \<in> set (timeline_items tree).
          query_selector ''timeline-dot'' li \<noteq> None \<and> query_selector ''timeline-content'' li \<noteq> None"
    using render_card_query by (auto simp: items)
  ultimately show ?thesis by (simp add: items)
qed

theorem scroll_keeps_connectors_witness:
  "\<exists>s1. step (page_init demo_layout False (\<lambda>x. x) 1) (Scroll 7) = Some s1
     \<and> svg (frame s1) = svg (frame (request_redraw (page_init demo_layout False (\<lambda>x. x) 1)))"
  using scroll_keeps_connectors [OF reach_demo [of False "\<lambda>x. x"], of 7] .

theorem rendered_cards_connected_witness:
  "layout_fits abc_layout (length (cards abc_section))
   \<and> length (timeline_items (render_timeline (Elem ''section'' [] []) abc_section)) = 3
   \<and> length (svg (frame (page_init abc_layout False (\<lambda>x. x) 3))) = 3"
proof -
  have f: "layout_fits abc_layout (length (cards abc_section))"
    by (simp add: layout_fits_def abc_layout_def abc_section_def)
  have d: "dom_content_loaded (Some (Elem ''section'' [] [])) abc_section abc_layout False (\<lambda>x. x)
      = Some (render_timeline (Elem ''section'' [] []) abc_section, page_init abc_layout False (\<lambda>x. x) 3)"
    by (simp add: dom_content_loaded_def mount_def abc_section_def numeral_3_eq_3)
  show ?thesis using rendered_cards_connected [OF f d] f by (simp add: abc_section_def)
qed

text \<open>
  C26.  On release the logical offset is reset, but the geometry pass reads the live
  bounding box: a redraw right after the release (here triggered by a scroll) draws the
  connector to the card where it is shown, not to its origin.  The specification's
  "reset immediately for geometry purposes" is therefore not what the code does; only
  the 920 ms timer of C9 brings the connector to the settled card.
\<close>

theorem release_draws_shown_offset:
  assumes "reach s" and "i < length (items s)" and "dragging (drag (items s ! i))" and "ease s 0 = 0"
  shows "\<exists>s'. run s [DragEnd i, Scroll dy, Frame] = Some s'
     \<and> pos (drag (items s' ! i)) = (0, 0)
     \<and> svg s' ! i = connector (container_rect (lay s)) (dot_rects (lay s) ! i)
          (shift_rect (content_rects (lay s) ! i) (visual_offset (ease s) (now s) (drag (items s ! i))))"
proof -
  have inv: "page_inv s" using reach_page_inv [OF assms(1)] .
  let ?s1 = "snd (set_timeout (update_drag s i (drag_end (ease s) (now s))) snap_redraw_delay TDraw)"
  let ?s2 = "request_redraw (?s1\<lparr>lay := shift_layout (lay ?s1) (0, - dy)\<rparr>)"
  have e1: "step s (DragEnd i) = Some ?s1"
    using assms(2,3) by (simp add: drag_guard_def)
  have e2: "step ?s1 (Scroll dy) = Some ?s2" by simp
  have i1: "page_inv ?s1" using page_inv_step [OF inv e1] .
  have i2: "page_inv ?s2" using page_inv_step [OF i1 e2] .
  have "svg (frame ?s2) = connector_pass (shift_rect (container_rect (lay ?s1)) (0, - dy))
         (live_geoms (?s1\<lparr>lay := shift_layout (lay ?s1) (0, - dy)\<rparr>))"
    using frame_scheduled_svg [OF i2] by (simp add: request_redraw_def shift_layout_def)
  also have "\<dots> = connector_pass (container_rect (lay ?s1)) (live_geoms ?s1)"
    by (simp only: live_geoms_shift connector_pass_translate)
  also have "\<dots> = map (\<lambda>j. connector (container_rect (lay ?s1)) (dot_rects (lay ?s1) ! j)
                (shift_rect (content_rects (lay ?s1) ! j) (visual_offset (ease ?s1) (now ?s1) (drag (items ?s1 ! j)))))
        [0..<length (items ?s1)]"
    using i1 by (intro connector_pass_live) (simp add: page_inv_def)
  finally have sv: "svg (frame ?s2) = \<dots>" .
  have vis: "visual_offset (ease s) (now s) (drag_end (ease s) (now s) (drag (items s ! i)))
      = visual_offset (ease s) (now s) (drag (items s ! i))"
    using assms(4) by (simp add: visual_offset_def snap_duration_def vscale_def)
  show ?thesis
    using e1 sv vis assms(2) by (simp add: update_drag_def request_redraw_def)
qed

lemma hypot_50_0: "hypot 50 0 = 50"
  by (rule hypot_pythagorean) simp_all

theorem release_draws_shown_offset_witness:
  "\<exists>s'. run (request_redraw (update_drag (update_drag (page_init demo_layout False (\<lambda>x. x) 1) 0 drag_start) 0
                (\<lambda>d. drag_move 0 d 50 0))) [DragEnd 0, Scroll 3, Frame] = Some s'
     \<and> pos (drag (items s' ! 0)) = (0, 0)
     \<and> svg s' ! 0 = connector (container_rect demo_layout) (hd (dot_rects demo_layout))
          (shift_rect (hd (content_rects demo_layout)) (50, 0))
     \<and> connector (container_rect demo_layout) (hd (dot_rects demo_layout)) (shift_rect (hd (content_rects demo_layout)) (50, 0))
       \<noteq> connector (container_rect demo_layout) (hd (dot_rects demo_layout)) (hd (content_rects demo_layout))"
proof -
  let ?p0 = "page_init demo_layout False (\<lambda>x. x) 1"
  let ?sa = "update_drag ?p0 0 drag_start"
  let ?sb = "request_redraw (update_drag ?sa 0 (\<lambda>d. drag_move 0 d 50 0))"
  have ea: "step ?p0 (DragStart 0) = Some ?sa"
    by (simp add: page_init_def card_rt_init_def drag_init_def)
  have eb: "step ?sa (DragMove 0 50 0) = Some ?sb"
    by (simp add: drag_guard_def update_drag_def page_init_def)
  have r: "reach ?sb" using reach.step [OF reach.step [OF reach_demo ea] eb] .
  have h: "0 < length (items ?sb)" "dragging (drag (items ?sb ! 0))" "ease ?sb 0 = 0"
    by (simp_all add: update_drag_def page_init_def request_redraw_def)
  have v: "visual_offset (ease ?sb) (now ?sb) (drag (items ?sb ! 0)) = (50, 0)"
    by (simp add: update_drag_def page_init_def request_redraw_def card_rt_init_def drag_init_def
        drag_move_def Let_def anim_active_def visual_offset_def clamp_offset_def hypot_50_0 drag_R_def)
  have ne: "connector (container_rect demo_layout) (hd (dot_rects demo_layout)) (shift_rect (hd (content_rects demo_layout)) (50, 0))
       \<noteq> connector (container_rect demo_layout) (hd (dot_rects demo_layout)) (hd (content_rects demo_layout))"
    by (simp add: connector_def Let_def demo_layout_def shift_rect_def)
  show ?thesis
    using release_draws_shown_offset [OF r h, of 3] v ne
    by (simp add: update_drag_def page_init_def request_redraw_def demo_layout_def del: run.simps)
qed

end
